theory Spec2Isabelle
  imports Main "HOL-Library.Sublist"
begin

section \<open>Python strings\<close>

text \<open>
  Strings are lists of 8-bit characters. The model agrees with Python's \<open>str\<close> on ASCII
  text: the character classes below are the ASCII part of \<open>str.isspace\<close>, \<open>\<^verbatim>\<open>\d\<close>\<close>
  and \<open>\<^verbatim>\<open>\w\<close>\<close>, and case conversion is that of the 26 letters. A code point beyond
  ASCII is the sequence of its UTF-8 bytes, none of which is a space, a digit or a word
  character here.
\<close>

definition isspace :: "char \<Rightarrow> bool" where
  "isspace c = (c \<in> set [CHR 0x09, CHR 0x0A, CHR 0x0B, CHR 0x0C, CHR 0x0D,
                            CHR 0x1C, CHR 0x1D, CHR 0x1E, CHR 0x1F, CHR 0x20])"

definition isdigit :: "char \<Rightarrow> bool" where
  "isdigit c = (c \<in> set ''0123456789'')"

definition lowercase_letters :: string where
  "lowercase_letters = ''abcdefghijklmnopqrstuvwxyz''"

definition uppercase_letters :: string where
  "uppercase_letters = ''ABCDEFGHIJKLMNOPQRSTUVWXYZ''"

definition isword :: "char \<Rightarrow> bool" where
  "isword c = (c \<in> set lowercase_letters \<or> c \<in> set uppercase_letters
               \<or> isdigit c \<or> c = CHR ''_'')"

definition lower_char :: "char \<Rightarrow> char" where
  "lower_char c = (case map_of (zip uppercase_letters lowercase_letters) c of
                     Some l \<Rightarrow> l | None \<Rightarrow> c)"

definition upper_char :: "char \<Rightarrow> char" where
  "upper_char c = (case map_of (zip lowercase_letters uppercase_letters) c of
                     Some u \<Rightarrow> u | None \<Rightarrow> c)"

definition lower :: "string \<Rightarrow> string" where
  "lower s = map lower_char s"

text \<open>\<open>s.strip()\<close>: leading and trailing whitespace removed.\<close>

definition strip :: "string \<Rightarrow> string" where
  "strip s = rev (dropWhile isspace (rev (dropWhile isspace s)))"

text \<open>\<open>s.split()\<close>: the maximal runs of non-whitespace characters, in order.\<close>

fun split_acc :: "string \<Rightarrow> string \<Rightarrow> string list" where
  "split_acc w [] = (if w = [] then [] else [w])"
| "split_acc w (c # cs) =
     (if isspace c then (if w = [] then split_acc [] cs else w # split_acc [] cs)
      else split_acc (w @ [c]) cs)"

definition split :: "string \<Rightarrow> string list" where
  "split s = split_acc [] s"

text \<open>\<open>sep.join(ws)\<close>.\<close>

fun join :: "string \<Rightarrow> string list \<Rightarrow> string" where
  "join sep [] = []"
| "join sep [w] = w"
| "join sep (w # v # ws) = w @ sep @ join sep (v # ws)"

text \<open>
  \<open>s.replace(old, new)\<close>: the occurrences of \<open>old\<close> are found from left to right and do
  not overlap; with an empty \<open>old\<close> Python inserts \<open>new\<close> before every character and at
  the end.
\<close>

fun replace :: "string \<Rightarrow> string \<Rightarrow> string \<Rightarrow> string" where
  "replace old new [] = (if old = [] then new else [])"
| "replace old new (c # cs) =
     (if old = [] then new @ c # replace old new cs
      else if prefix old (c # cs) then new @ replace old new (drop (length old) (c # cs))
      else c # replace old new cs)"

text \<open>\<open>s.split(sep)[-1]\<close> for a one-character separator: what follows the last \<open>sep\<close>.\<close>

definition after_last :: "char \<Rightarrow> string \<Rightarrow> string" where
  "after_last sep s = rev (takeWhile (\<lambda>c. c \<noteq> sep) (rev s))"

text \<open>\<open>s.split(sep, 1)\<close> when \<open>sep\<close> occurs in \<open>s\<close>: the text before the first \<open>sep\<close> and
  the text after it.\<close>

definition split_once :: "char \<Rightarrow> string \<Rightarrow> string \<times> string" where
  "split_once sep s = (takeWhile (\<lambda>c. c \<noteq> sep) s, drop 1 (dropWhile (\<lambda>c. c \<noteq> sep) s))"

section \<open>The two regular expressions of \<open>format_model_name\<close>\<close>

text \<open>
  \<open>\<^verbatim>\<open>re.search(r'(\d+(?:\.\d+)?[bB])', tag)\<close>\<close>. A match that starts at a given position
  takes the whole run of digits there (after fewer digits the next character is a digit,
  which is neither a dot nor the letter), then either the letter, or a dot, a whole
  non-empty run of digits and the letter. \<open>size_match_at\<close> is the match anchored at the
  start of its argument, \<open>size_search\<close> the leftmost one, as \<open>re.search\<close> returns it.
\<close>

definition is_b :: "char \<Rightarrow> bool" where
  "is_b c = (c = CHR ''b'' \<or> c = CHR ''B'')"

definition size_match_at :: "string \<Rightarrow> string option" where
  "size_match_at s =
     (let d1 = takeWhile isdigit s; r1 = dropWhile isdigit s in
      if d1 = [] then None
      else case r1 of
             [] \<Rightarrow> None
           | c # r2 \<Rightarrow>
               if is_b c then Some (d1 @ [c])
               else if c = CHR ''.'' then
                 (let d2 = takeWhile isdigit r2; r3 = dropWhile isdigit r2 in
                  if d2 = [] then None
                  else case r3 of
                         [] \<Rightarrow> None
                       | e # _ \<Rightarrow> if is_b e then Some (d1 @ CHR ''.'' # d2 @ [e]) else None)
               else None)"

fun size_search :: "string \<Rightarrow> string option" where
  "size_search [] = None"
| "size_search (c # cs) =
     (case size_match_at (c # cs) of
        Some m \<Rightarrow> Some m
      | None \<Rightarrow> size_search cs)"

text \<open>
  \<open>\<^verbatim>\<open>re.sub(r'\b' + key + r'\b', value, name, flags=re.IGNORECASE)\<close>\<close> for a key that is
  a non-empty literal word. \<open>\<^verbatim>\<open>\b\<close>\<close> holds between two positions exactly when one side is
  a word character and the other is not (the ends of the text count as not a word
  character). The scan goes from left to right; after a match it resumes behind the
  matched text, whose last character is then the left neighbour.
\<close>

definition isword_opt :: "char option \<Rightarrow> bool" where
  "isword_opt p = (case p of None \<Rightarrow> False | Some c \<Rightarrow> isword c)"

definition word_boundary :: "char option \<Rightarrow> char option \<Rightarrow> bool" where
  "word_boundary l r = (isword_opt l \<noteq> isword_opt r)"

definition head_opt :: "string \<Rightarrow> char option" where
  "head_opt s = (case s of [] \<Rightarrow> None | c # _ \<Rightarrow> Some c)"

definition word_match_at :: "string \<Rightarrow> char option \<Rightarrow> string \<Rightarrow> bool" where
  "word_match_at key prev s =
     (key \<noteq> [] \<and> length key \<le> length s
      \<and> lower (take (length key) s) = lower key
      \<and> word_boundary prev (head_opt s)
      \<and> word_boundary (Some (last (take (length key) s))) (head_opt (drop (length key) s)))"

function sub_word_from :: "string \<Rightarrow> string \<Rightarrow> char option \<Rightarrow> string \<Rightarrow> string" where
  "sub_word_from key val prev [] = []"
| "sub_word_from key val prev (c # cs) =
     (if word_match_at key prev (c # cs)
      then val @ sub_word_from key val (Some (last (take (length key) (c # cs))))
                   (drop (length key) (c # cs))
      else c # sub_word_from key val (Some c) cs)"
  by pat_completeness auto
termination
  by (relation "measure (\<lambda>(key, val, prev, s). length s)") (auto simp: word_match_at_def)

definition sub_word :: "string \<Rightarrow> string \<Rightarrow> string \<Rightarrow> string" where
  "sub_word key val name = sub_word_from key val None name"

section \<open>\<open>format_model_name\<close> and \<open>extract_param_count\<close>\<close>

text \<open>The dictionary \<open>model_families\<close>, in insertion order (the order of the loop).\<close>

definition model_families :: "(string \<times> string) list" where
  "model_families =
     [(''llama'', ''Llama''), (''mistral'', ''Mistral''), (''codellama'', ''CodeLlama''),
      (''wizardlm'', ''WizardLM''), (''wizard'', ''Wizard''), (''gemma'', ''Gemma''),
      (''falcon'', ''Falcon''), (''phi'', ''Phi''), (''stablelm'', ''StableLM''),
      (''tinyllama'', ''TinyLlama''), (''vicuna'', ''Vicuna''), (''nous'', ''Nous''),
      (''orca'', ''Orca''), (''yi'', ''Yi'')]"

text \<open>The replacement for the word "uncensored": a parenthesised glyph, here the UTF-8
  bytes of the four code points between the parentheses in the source file.\<close>

definition uncensored_marker :: string where
  "uncensored_marker =
     CHR ''('' # [CHR 0xEF, CHR 0xA3, CHR 0xBF, CHR 0xC3, CHR 0xBC, CHR 0xC3, CHR 0xB3,
                 CHR 0xCE, CHR 0xA9] @ [CHR '')'']"

record model_info =
  formatted_name :: string
  size_info :: string
  original_name :: string
  base_family :: string

definition apply_families :: "string \<Rightarrow> string" where
  "apply_families name = foldl (\<lambda>n (key, val). sub_word key val n) name model_families"

definition capitalize_word :: "string \<Rightarrow> string" where
  "capitalize_word word =
     (if lower word \<in> set (map (\<lambda>(key, val). lower val) model_families)
         \<or> word = uncensored_marker
      then word
      else (case word of [] \<Rightarrow> [] | c # cs \<Rightarrow> upper_char c # cs))"

definition format_model_name :: "string \<Rightarrow> model_info" where
  "format_model_name name0 =
     (let name1 = (if CHR ''/'' \<in> set name0 then after_last (CHR ''/'') name0 else name0);
          (name2, sz) =
             (if CHR '':'' \<in> set name1
              then (let (base, tag) = split_once (CHR '':'') name1
                    in (base, case size_search tag of Some m \<Rightarrow> m | None \<Rightarrow> []))
              else (name1, []));
          name3 = replace ''_'' '' '' (replace ''-'' '' '' name2);
          name4 = apply_families name3;
          name5 = sub_word ''uncensored'' uncensored_marker name4;
          capitalized_words = map capitalize_word (split name5)
      in \<lparr> formatted_name = join '' '' capitalized_words,
           size_info = sz,
           original_name = name0,
           base_family = (case capitalized_words of [] \<Rightarrow> [] | w # _ \<Rightarrow> w) \<rparr>)"

definition extract_param_count :: "string \<Rightarrow> string" where
  "extract_param_count sz =
     (if sz = [] then ''unknown''
      else if suffix ''b'' (lower sz) then butlast sz
      else sz)"

section \<open>The request worker \<open>OllamaThread\<close>\<close>

record ollama_thread =
  thread_model :: string
  thread_prompt :: string
  thread_api_url :: string
  thread_system_prompt :: string
  thread_use_streaming :: bool

text \<open>\<open>process_system_prompt\<close>; its parameter \<open>model_display_name\<close> is not used by the
  source.\<close>

definition process_system_prompt :: "ollama_thread \<Rightarrow> string" where
  "process_system_prompt thr =
     (if thread_system_prompt thr = [] then []
      else (let model_info = format_model_name (thread_model thr);
                param_count = extract_param_count (size_info model_info);
                p1 = replace ''%model%'' (formatted_name model_info) (thread_system_prompt thr)
            in replace ''%parameters%'' param_count p1))"

text \<open>The request payload: a dictionary with the keys "model", "prompt", "stream" and,
  only when the processed system prompt is not empty, "system".\<close>

record payload =
  payload_model :: string
  payload_prompt :: string
  payload_stream :: bool
  payload_system :: "string option"

definition build_payload :: "ollama_thread \<Rightarrow> payload" where
  "build_payload thr =
     (let processed_system_prompt = process_system_prompt thr
      in \<lparr> payload_model = thread_model thr,
           payload_prompt = thread_prompt thr,
           payload_stream = thread_use_streaming thr,
           payload_system = (if processed_system_prompt = [] then None
                             else Some processed_system_prompt) \<rparr>)"

text \<open>The three signals of the worker.\<close>

datatype signal =
    response_received string
  | streaming_chunk_received string
  | error_occurred string

text \<open>
  A decoded JSON value; an object is the dictionary \<open>json.loads\<close> builds, one entry per
  key. A number is an \<open>int\<close> or a \<open>float\<close> (here by mantissa and decimal exponent); its value
  plays no role.
\<close>

datatype json =
    JNull
  | JBool bool
  | JInt int
  | JFloat int int
  | JString string
  | JArray "json list"
  | JObject "(string \<times> json) list"

text \<open>\<open>str(n)\<close> for a status code.\<close>

fun str_nat :: "nat \<Rightarrow> string" where
  "str_nat n =
     (if n < 10 then [''0123456789'' ! n]
      else str_nat (n div 10) @ [''0123456789'' ! (n mod 10)])"

declare str_nat.simps [simp del]

text \<open>
  The answer of \<open>requests.post\<close>: it raises a \<open>RequestException\<close> (with its text), or returns
  a response with a status code, a body text and, read by \<open>iter_lines\<close>, the lines that
  arrive; \<open>broken\<close> is the text of the \<open>RequestException\<close> that ends the iteration when the
  connection fails after these lines.
\<close>

record http_response =
  status_code :: nat
  body_text :: string
  lines :: "string list"
  broken :: "string option"

datatype post_result = PostRaised string | PostReturned http_response

text \<open>
  The body of the loop over the lines. \<open>'response' in chunk_data\<close> is key membership for
  an object, element membership for an array, substring search for a string and a
  \<open>TypeError\<close> for the other values; \<open>chunk_data['response']\<close> is defined for an object
  only, and \<open>full_response += chunk\<close> for a string chunk only. The texts of these
  \<open>TypeError\<close>s are those of CPython 3.10.
\<close>

definition type_name :: "json \<Rightarrow> string" where
  "type_name j = (case j of JNull \<Rightarrow> ''NoneType'' | JBool _ \<Rightarrow> ''bool''
                  | JInt _ \<Rightarrow> ''int'' | JFloat _ _ \<Rightarrow> ''float'' | JString _ \<Rightarrow> ''str''
                  | JArray _ \<Rightarrow> ''list'' | JObject _ \<Rightarrow> ''dict'')"

definition contains_response :: "json \<Rightarrow> string + bool" where
  "contains_response chunk_data =
     (case chunk_data of
        JObject kvs \<Rightarrow> Inr (''response'' \<in> set (map fst kvs))
      | JArray js \<Rightarrow> Inr (JString ''response'' \<in> set js)
      | JString t \<Rightarrow> Inr (sublist ''response'' t)
      | _ \<Rightarrow> Inl (''argument of type '' @ [CHR 0x27] @ type_name chunk_data @ [CHR 0x27]
                    @ '' is not iterable''))"

definition get_response :: "json \<Rightarrow> string + json" where
  "get_response chunk_data =
     (case chunk_data of
        JObject kvs \<Rightarrow> (case map_of kvs ''response'' of
                          Some v \<Rightarrow> Inr v
                        | None \<Rightarrow> Inl ([CHR 0x27] @ ''response'' @ [CHR 0x27]))
      | JString t \<Rightarrow> Inl ''string indices must be integers''
      | _ \<Rightarrow> Inl ''list indices must be integers or slices, not str'')"

text \<open>
  The outcome of \<open>json.loads(line)\<close> on the bytes of a line: the decoded value, a
  \<open>JSONDecodeError\<close>, or another exception with its text (a \<open>UnicodeDecodeError\<close> for bytes
  that are not UTF-8, a \<open>RecursionError\<close> for nesting that is too deep), which the handler
  of the loop does not catch.
\<close>

datatype loads_result = Decoded json | JSONDecodeError | OtherError string

text \<open>
  The loop \<open>for line in response.iter_lines()\<close>, with \<open>full_response\<close> as accumulator. It
  returns the chunk signals emitted, the lines reported by the warning of the
  \<open>JSONDecodeError\<close> handler, and either the text of the exception that left the loop or
  the final \<open>full_response\<close>. \<open>loads\<close> stands for \<open>json.loads\<close>.
\<close>

fun stream_lines ::
  "(string \<Rightarrow> loads_result) \<Rightarrow> string \<Rightarrow> string list \<Rightarrow> signal list \<times> string list \<times> (string + string)" where
  "stream_lines loads full_response [] = ([], [], Inr full_response)"
| "stream_lines loads full_response (line # rest) =
     (if line = [] then stream_lines loads full_response rest
      else case loads line of
        JSONDecodeError \<Rightarrow>
          (let (sigs, warned, r) = stream_lines loads full_response rest
           in (sigs, line # warned, r))
      | OtherError e \<Rightarrow> ([], [], Inl e)
      | Decoded chunk_data \<Rightarrow>
          (case contains_response chunk_data of
             Inl e \<Rightarrow> ([], [], Inl e)
           | Inr False \<Rightarrow> stream_lines loads full_response rest
           | Inr True \<Rightarrow>
               (case get_response chunk_data of
                  Inl e \<Rightarrow> ([], [], Inl e)
                | Inr (JString chunk) \<Rightarrow>
                    (let (sigs, warned, r) = stream_lines loads (full_response @ chunk) rest
                     in (streaming_chunk_received chunk # sigs, warned, r))
                | Inr v \<Rightarrow>
                    ([], [], Inl (''can only concatenate str (not '' @ [CHR 0x22] @ type_name v
                                  @ [CHR 0x22] @ '') to str'')))))"

text \<open>
  The streaming branch of \<open>run\<close> with its exception handlers: the signals emitted, in
  order, and the lines warned about. (The non-streaming branch is not part of this
  development.)
\<close>

definition run_streaming ::
  "(string \<Rightarrow> loads_result) \<Rightarrow> post_result \<Rightarrow> signal list \<times> string list" where
  "run_streaming loads post =
     (case post of
        PostRaised e \<Rightarrow> ([error_occurred (''Network error: '' @ e)], [])
      | PostReturned response \<Rightarrow>
          if status_code response = 200 then
            (case stream_lines loads [] (lines response) of
               (sigs, warned, Inl e) \<Rightarrow> (sigs @ [error_occurred (''Error: '' @ e)], warned)
             | (sigs, warned, Inr full_response) \<Rightarrow>
                 (case broken response of
                    Some e \<Rightarrow> (sigs @ [error_occurred (''Network error: '' @ e)], warned)
                  | None \<Rightarrow> (sigs @ [response_received full_response], warned)))
          else ([error_occurred (''Error: Status code '' @ str_nat (status_code response)
                                 @ '' - '' @ body_text response)], []))"

text \<open>What the description of the worker says it yields: the text chunks of the lines, in
  arrival order.\<close>

definition line_chunk :: "(string \<Rightarrow> loads_result) \<Rightarrow> string \<Rightarrow> string list" where
  "line_chunk loads line =
     (if line = [] then []
      else case loads line of
             Decoded (JObject kvs) \<Rightarrow>
               (case map_of kvs ''response'' of Some (JString chunk) \<Rightarrow> [chunk] | _ \<Rightarrow> [])
           | _ \<Rightarrow> [])"

definition chunks_of :: "(string \<Rightarrow> loads_result) \<Rightarrow> string list \<Rightarrow> string list" where
  "chunks_of loads lns = concat (map (line_chunk loads) lns)"

definition unparsable :: "(string \<Rightarrow> loads_result) \<Rightarrow> string list \<Rightarrow> string list" where
  "unparsable loads lns = filter (\<lambda>line. line \<noteq> [] \<and> loads line = JSONDecodeError) lns"

text \<open>A line of the protocol: empty, not JSON, or a JSON object whose "response", when
  present, is a string.\<close>

definition protocol_line :: "(string \<Rightarrow> loads_result) \<Rightarrow> string \<Rightarrow> bool" where
  "protocol_line loads line =
     (if line = [] then True
      else case loads line of
             JSONDecodeError \<Rightarrow> True
           | OtherError e \<Rightarrow> False
           | Decoded (JObject kvs) \<Rightarrow>
               (case map_of kvs ''response'' of
                  None \<Rightarrow> True | Some (JString chunk) \<Rightarrow> True | Some _ \<Rightarrow> False)
           | Decoded _ \<Rightarrow> False)"

text \<open>
  A line on which the body of the loop raises nothing that leaves the loop: besides the
  lines of the protocol, these are the JSON arrays without the element "response" and the
  JSON strings that do not contain the text "response", for which the membership test is
  false.
\<close>

definition line_passes :: "(string \<Rightarrow> loads_result) \<Rightarrow> string \<Rightarrow> bool" where
  "line_passes loads line =
     (if line = [] then True
      else case loads line of
             JSONDecodeError \<Rightarrow> True
           | OtherError e \<Rightarrow> False
           | Decoded chunk_data \<Rightarrow>
               (case contains_response chunk_data of
                  Inl e \<Rightarrow> False
                | Inr False \<Rightarrow> True
                | Inr True \<Rightarrow>
                    (case get_response chunk_data of
                       Inr (JString chunk) \<Rightarrow> True
                     | _ \<Rightarrow> False)))"

section \<open>The window \<open>OllamaChatGUI\<close>\<close>

text \<open>
  An entry of \<open>conversation_history\<close> is a dictionary with the keys "role" (the string
  "user" or "assistant") and "content".
\<close>

datatype role = User | Assistant

record message =
  role :: role
  content :: string

text \<open>
  The widgets of \<open>chat_layout\<close>: the welcome view and the chat bubbles (message and
  \<open>is_user\<close>). Each widget is a fresh object; the number is its identity, which
  \<open>indexOf\<close> compares.
\<close>

datatype widget = WelcomeWidget nat | ChatBubble nat string bool

text \<open>
  The file \<open>ollama_config.json\<close>: missing; present but not a JSON object (\<open>json.load\<close>, the
  test \<open>in\<close> or the subscript raises, and \<open>load_config\<close> swallows the exception before it
  assigns anything); or a JSON object, of which only the two keys matter, each absent or
  present with the type \<open>save_prompt\<close> writes. Objects that hold a value of another type
  under one of the two keys are outside this model.
\<close>

datatype config_file = Missing | Unreadable | Config "string option" "bool option"

datatype py_error = IndexError

definition str_error :: "py_error \<Rightarrow> string" where
  "str_error e = (case e of IndexError \<Rightarrow> ''list index out of range'')"

text \<open>
  The state: the attributes of the window that the operations below read or assign, the
  text of the input field, the configuration file beside the program, and the counter of
  widget identities. \<open>thread\<close> is the worker created and started last; \<open>closed\<close> records
  \<open>close()\<close>. Animation, scrolling, margins, the header title and the send button are left
  out.
\<close>

record gui =
  conversation_history :: "message list"
  api_url :: string
  current_model :: string
  system_prompt :: string
  use_streaming :: bool
  current_streaming_bubble :: "widget option"
  chat_layout :: "widget list"
  message_input :: string
  thread :: "ollama_thread option"
  closed :: bool
  config_file :: config_file
  next_widget :: nat

text \<open>
  What the user does in a dialog that an operation opens: \<open>exec_\<close> returns false (the
  dialog is dismissed), or the model dialog is accepted with an address and a selected
  model, or the system-prompt dialog is left through "Save" with the text of the editor,
  the state of the streaming checkbox, and whether the configuration file could be opened
  for writing.
\<close>

datatype model_dialog_result = ModelRejected | ModelAccepted string string

datatype prompt_dialog_result = PromptRejected | PromptSaved string bool bool

record user =
  model_dialog :: model_dialog_result
  prompt_dialog :: prompt_dialog_result

subsection \<open>Configuration\<close>

definition load_config :: "gui \<Rightarrow> gui" where
  "load_config s =
     (case config_file s of
        Missing \<Rightarrow> s
      | Unreadable \<Rightarrow> s
      | Config sp us \<Rightarrow>
          (let s1 = (case sp of Some p \<Rightarrow> s \<lparr> system_prompt := p \<rparr> | None \<Rightarrow> s)
           in (case us of Some b \<Rightarrow> s1 \<lparr> use_streaming := b \<rparr> | None \<Rightarrow> s1)))"

text \<open>\<open>__init__\<close> up to \<open>setup_ui\<close>: the defaults, then \<open>load_config\<close>, then the welcome
  view.\<close>

definition init_gui :: "config_file \<Rightarrow> gui" where
  "init_gui file =
     (load_config \<lparr> conversation_history = [], api_url = ''http://localhost:11434'',
                    current_model = [], system_prompt = [], use_streaming = False,
                    current_streaming_bubble = None, chat_layout = [],
                    message_input = [], thread = None, closed = False,
                    config_file = file, next_widget = 0 \<rparr>)
       \<lparr> chat_layout := [WelcomeWidget 0], next_widget := 1 \<rparr>"

text \<open>\<open>SystemPromptDialog.save_prompt\<close>: the attributes of the dialog and the file after
  it.\<close>

definition save_prompt :: "string \<Rightarrow> bool \<Rightarrow> bool \<Rightarrow> config_file \<Rightarrow> (string \<times> bool) \<times> config_file" where
  "save_prompt editor_text checked writable file =
     (let dialog_system_prompt = strip editor_text;
          dialog_use_streaming = checked
      in ((dialog_system_prompt, dialog_use_streaming),
          (if writable then Config (Some dialog_system_prompt) (Some dialog_use_streaming)
           else file)))"

definition show_system_prompt_dialog :: "user \<Rightarrow> gui \<Rightarrow> gui" where
  "show_system_prompt_dialog u s =
     (case prompt_dialog u of
        PromptRejected \<Rightarrow> s
      | PromptSaved editor_text checked writable \<Rightarrow>
          (let ((p, b), file) = save_prompt editor_text checked writable (config_file s)
           in s \<lparr> system_prompt := p, use_streaming := b, config_file := file \<rparr>))"

definition show_model_dialog :: "user \<Rightarrow> gui \<Rightarrow> gui" where
  "show_model_dialog u s =
     (case model_dialog u of
        ModelRejected \<Rightarrow> s
      | ModelAccepted url selected \<Rightarrow> s \<lparr> api_url := url, current_model := selected \<rparr>)"

subsection \<open>Bubbles\<close>

definition setup_welcome_view :: "gui \<Rightarrow> gui" where
  "setup_welcome_view s =
     s \<lparr> chat_layout := [WelcomeWidget (next_widget s)], next_widget := Suc (next_widget s) \<rparr>"

text \<open>\<open>add_message_bubble\<close> changes the layout only; its callers append to
  \<open>conversation_history\<close> where they do.\<close>

definition add_message_bubble :: "string \<Rightarrow> bool \<Rightarrow> gui \<Rightarrow> gui" where
  "add_message_bubble msg is_user s =
     (let first_message = (length (conversation_history s) = 0);
          s1 = (if first_message then s \<lparr> chat_layout := [] \<rparr> else s);
          bubble = ChatBubble (next_widget s1) msg is_user
      in s1 \<lparr> chat_layout := chat_layout s1 @ [bubble], next_widget := Suc (next_widget s1) \<rparr>)"

definition add_streaming_bubble :: "string \<Rightarrow> gui \<Rightarrow> gui" where
  "add_streaming_bubble msg s =
     (let bubble = ChatBubble (next_widget s) msg False
      in s \<lparr> current_streaming_bubble := Some bubble,
             chat_layout := chat_layout s @ [bubble],
             conversation_history :=
               conversation_history s @ [\<lparr> role = Assistant, content = msg \<rparr>],
             next_widget := Suc (next_widget s) \<rparr>)"

text \<open>\<open>layout.indexOf(w)\<close>: the position of the widget, \<open>None\<close> for the result -1.\<close>

fun index_of :: "widget \<Rightarrow> widget list \<Rightarrow> nat option" where
  "index_of w [] = None"
| "index_of w (v # vs) = (if w = v then Some 0 else map_option Suc (index_of w vs))"

text \<open>\<open>update_streaming_bubble\<close>; \<open>conversation_history[-1]\<close> raises \<open>IndexError\<close> on an empty
  history.\<close>

definition update_streaming_bubble :: "string \<Rightarrow> gui \<Rightarrow> py_error + gui" where
  "update_streaming_bubble new_chunk s =
     (case current_streaming_bubble s of
        None \<Rightarrow> Inr (add_streaming_bubble new_chunk s)
      | Some old_bubble \<Rightarrow>
          if conversation_history s = [] then Inl IndexError
          else
            (let current_content = content (last (conversation_history s));
                 updated_content = current_content @ new_chunk;
                 s1 = s \<lparr> conversation_history :=
                            butlast (conversation_history s)
                            @ [(last (conversation_history s)) \<lparr> content := updated_content \<rparr>] \<rparr>;
                 new_bubble = ChatBubble (next_widget s1) updated_content False;
                 s2 = s1 \<lparr> next_widget := Suc (next_widget s1) \<rparr>
             in Inr (case index_of old_bubble (chat_layout s2) of
                       Some layout_index \<Rightarrow>
                         s2 \<lparr> chat_layout := (chat_layout s2) [layout_index := new_bubble],
                              current_streaming_bubble := Some new_bubble \<rparr>
                     | None \<Rightarrow> s2)))"

subsection \<open>The slots connected to the signals of a worker\<close>

definition handle_streaming_chunk :: "string \<Rightarrow> gui \<Rightarrow> py_error + gui" where
  "handle_streaming_chunk chunk s =
     (case current_streaming_bubble s of
        Some _ \<Rightarrow> update_streaming_bubble chunk s
      | None \<Rightarrow> Inr (add_streaming_bubble chunk s))"

definition handle_response :: "string \<Rightarrow> gui \<Rightarrow> gui" where
  "handle_response response s =
     (if use_streaming s \<and> current_streaming_bubble s \<noteq> None
      then s \<lparr> current_streaming_bubble := None \<rparr>
      else (let s1 = add_message_bubble response False s
            in s1 \<lparr> conversation_history :=
                      conversation_history s1 @ [\<lparr> role = Assistant, content = response \<rparr>] \<rparr>))"

definition handle_error :: "string \<Rightarrow> gui \<Rightarrow> gui" where
  "handle_error error_message s =
     (let s1 = add_message_bubble (''Error: '' @ error_message) False s
      in if use_streaming s1 then s1 \<lparr> current_streaming_bubble := None \<rparr> else s1)"

subsection \<open>\<open>SlashCommandHandler\<close>\<close>

datatype action = ClearChat | OpenModels | OpenSystemPrompt | ExitApp

text \<open>The dictionary \<open>commands\<close>: command, description, action.\<close>

definition commands :: "(string \<times> string \<times> action) list" where
  "commands =
     [(''/clear'', ''Clear the chat history'', ClearChat),
      (''/models'', ''Open model selection panel'', OpenModels),
      (''/system'', ''Configure system prompt'', OpenSystemPrompt),
      (''/bye'', ''Exit the application'', ExitApp)]"

definition clear_chat :: "gui \<Rightarrow> gui" where
  "clear_chat s = setup_welcome_view (s \<lparr> conversation_history := [] \<rparr>)"

definition run_action :: "user \<Rightarrow> action \<Rightarrow> gui \<Rightarrow> gui" where
  "run_action u a s =
     (case a of
        ClearChat \<Rightarrow> clear_chat s
      | OpenModels \<Rightarrow> show_model_dialog u s
      | OpenSystemPrompt \<Rightarrow> show_system_prompt_dialog u s
      | ExitApp \<Rightarrow> s \<lparr> closed := True \<rparr>)"

text \<open>\<open>process_command\<close>; \<open>command_text.split()[0]\<close> raises \<open>IndexError\<close> when the text has
  no word.\<close>

definition process_command :: "user \<Rightarrow> string \<Rightarrow> gui \<Rightarrow> py_error + (bool \<times> gui)" where
  "process_command u command_text s =
     (case split command_text of
        [] \<Rightarrow> Inl IndexError
      | command # _ \<Rightarrow>
          (case map_of commands command of
             Some (description, a) \<Rightarrow> Inr (True, run_action u a s)
           | None \<Rightarrow> Inr (False, s)))"

subsection \<open>\<open>send_message\<close>\<close>

definition no_valid_model :: "string \<Rightarrow> bool" where
  "no_valid_model m = (m = [] \<or> m \<in> set [''No models found'', ''Fetching models...'', ''Error:''])"

definition startswith_slash :: "string \<Rightarrow> bool" where
  "startswith_slash m = (case m of [] \<Rightarrow> False | c # _ \<Rightarrow> c = CHR ''/'')"

text \<open>The part of \<open>send_message\<close> behind the checks: the user message is shown and
  appended, the accumulation pointer is reset in streaming mode, and the worker is created
  and started. (Creating and starting the worker is taken to succeed; the handler for its
  failure only shows a bubble.)\<close>

definition start_request :: "string \<Rightarrow> gui \<Rightarrow> gui" where
  "start_request msg s =
     (let s1 = s \<lparr> message_input := [] \<rparr>;
          s2 = add_message_bubble msg True s1;
          s3 = s2 \<lparr> conversation_history :=
                      conversation_history s2 @ [\<lparr> role = User, content = msg \<rparr>] \<rparr>;
          s4 = (if use_streaming s3 then s3 \<lparr> current_streaming_bubble := None \<rparr> else s3)
      in s4 \<lparr> thread := Some \<lparr> thread_model = current_model s4, thread_prompt = msg,
                               thread_api_url = api_url s4,
                               thread_system_prompt = system_prompt s4,
                               thread_use_streaming = use_streaming s4 \<rparr> \<rparr>)"

text \<open>\<open>send_message\<close>. An exception in its body is caught by its handler, which shows
  the text of the exception in a bubble.\<close>

definition send_message :: "user \<Rightarrow> gui \<Rightarrow> gui" where
  "send_message u s =
     (let msg = strip (message_input s) in
      if msg = [] then s
      else
        (case (if startswith_slash msg then process_command u msg s else Inr (False, s)) of
           Inl e \<Rightarrow> add_message_bubble (''Error: '' @ str_error e) False s
         | Inr (True, s1) \<Rightarrow> s1 \<lparr> message_input := [] \<rparr>
         | Inr (False, s1) \<Rightarrow>
             if no_valid_model (current_model s1) then
               (let s2 = show_model_dialog u s1 in
                if no_valid_model (current_model s2)
                then add_message_bubble ''Please select a valid model first.'' False s2
                else start_request msg s2)
             else start_request msg s1))"

subsection \<open>Events\<close>

text \<open>
  What happens at the window, one event at a time, on the interface thread: the user
  submits a text (the text is put into the input field and Return is pressed), or a
  signal of a worker is delivered to its slot. The number names the worker that emitted
  the signal; no slot receives it.
\<close>

datatype event = Submit user string | FromWorker nat signal

definition submit :: "user \<Rightarrow> string \<Rightarrow> gui \<Rightarrow> gui" where
  "submit u txt s = send_message u (s \<lparr> message_input := txt \<rparr>)"

definition deliver :: "signal \<Rightarrow> gui \<Rightarrow> py_error + gui" where
  "deliver sg s =
     (case sg of
        response_received response \<Rightarrow> Inr (handle_response response s)
      | streaming_chunk_received chunk \<Rightarrow> handle_streaming_chunk chunk s
      | error_occurred error_message \<Rightarrow> Inr (handle_error error_message s))"

definition step :: "event \<Rightarrow> gui \<Rightarrow> py_error + gui" where
  "step ev s =
     (case ev of
        Submit u txt \<Rightarrow> Inr (submit u txt s)
      | FromWorker w sg \<Rightarrow> deliver sg s)"

fun run_events :: "event list \<Rightarrow> gui \<Rightarrow> py_error + gui" where
  "run_events [] s = Inr s"
| "run_events (ev # evs) s =
     (case step ev s of Inl e \<Rightarrow> Inl e | Inr s1 \<Rightarrow> run_events evs s1)"

fun deliver_all :: "signal list \<Rightarrow> gui \<Rightarrow> py_error + gui" where
  "deliver_all [] s = Inr s"
| "deliver_all (sg # sgs) s =
     (case deliver sg s of Inl e \<Rightarrow> Inl e | Inr s1 \<Rightarrow> deliver_all sgs s1)"

section \<open>The system prompt, as it is described\<close>

text \<open>
  The notions of the description, used to state what the code computes: a template is a
  text followed by placeholders, each followed by a text; filling it puts the name and the
  count in the place of the placeholders. A size token is a run of digits, optionally a
  dot and a run of digits, then the letter b or B; the tag of a model identifier is what
  follows the first colon behind the last slash. \<open>ascii\<close> holds for the strings on which
  the model of the string operations agrees with Python.
\<close>

definition ascii :: "string \<Rightarrow> bool" where
  "ascii s = list_all (\<lambda>c. \<not> digit7 c) s"

datatype placeholder = ModelName | ParameterCount

definition placeholder_text :: "placeholder \<Rightarrow> string" where
  "placeholder_text p = (case p of ModelName \<Rightarrow> ''%model%'' | ParameterCount \<Rightarrow> ''%parameters%'')"

definition plain :: "string \<Rightarrow> bool" where
  "plain t = (CHR ''%'' \<notin> set t)"

type_synonym template = "string \<times> (placeholder \<times> string) list"

definition template_text :: "template \<Rightarrow> string" where
  "template_text tpl =
     fst tpl @ concat (map (\<lambda>(p, t). placeholder_text p @ t) (snd tpl))"

definition fill :: "string \<Rightarrow> string \<Rightarrow> template \<Rightarrow> string" where
  "fill name count tpl =
     fst tpl @ concat (map (\<lambda>(p, t). (case p of ModelName \<Rightarrow> name | ParameterCount \<Rightarrow> count) @ t)
                           (snd tpl))"

definition plain_template :: "template \<Rightarrow> bool" where
  "plain_template tpl = (plain (fst tpl) \<and> list_all (\<lambda>(p, t). plain t) (snd tpl))"

fun separated :: "(placeholder \<times> string) list \<Rightarrow> bool" where
  "separated [] = True"
| "separated [pt] = True"
| "separated ((p, t) # (q, u) # rest) =
     (\<not> (p = ParameterCount \<and> t = ''model'') \<and> separated ((q, u) # rest))"

definition digits :: "string \<Rightarrow> bool" where
  "digits d = (d \<noteq> [] \<and> list_all isdigit d)"

definition numeric :: "string \<Rightarrow> bool" where
  "numeric n = (digits n \<or> (\<exists>d1 d2. digits d1 \<and> digits d2 \<and> n = d1 @ CHR ''.'' # d2))"

definition size_token :: "string \<Rightarrow> bool" where
  "size_token m = (\<exists>n l. numeric n \<and> is_b l \<and> m = n @ [l])"

definition model_tag :: "string \<Rightarrow> string option" where
  "model_tag name0 =
     (let name1 = (if CHR ''/'' \<in> set name0 then after_last (CHR ''/'') name0 else name0)
      in if CHR '':'' \<in> set name1 then Some (snd (split_once (CHR '':'') name1)) else None)"

section \<open>Concrete inputs\<close>

definition demo_loads :: "string \<Rightarrow> loads_result" where
  "demo_loads line =
     (case map_of [(''{1}'', JObject [(''response'', JString ''Hel'')]),
                   (''{2}'', JObject [(''response'', JString ''lo'')]),
                   (''{3}'', JObject [(''done'', JBool False)]),
                   (''{4}'', JObject [(''response'', JString '' world'')]),
                   (''5'', JInt 5)] line of
        Some j \<Rightarrow> Decoded j
      | None \<Rightarrow> (if line = [CHR 0xFF] then OtherError ''invalid start byte''
                 else JSONDecodeError))"

definition demo_broken :: http_response where
  "demo_broken = \<lparr> status_code = 200, body_text = [],
                    lines = [''{1}'', ''{2}''], broken = Some ''Connection broken'' \<rparr>"

definition demo_number_line :: http_response where
  "demo_number_line = \<lparr> status_code = 200, body_text = [],
                         lines = [''{1}'', ''5'', ''{2}''], broken = None \<rparr>"

definition demo_not_found :: http_response where
  "demo_not_found = \<lparr> status_code = 404, body_text = ''not found'',
                       lines = [''{1}''], broken = None \<rparr>"

definition demo_response :: http_response where
  "demo_response = \<lparr> status_code = 200, body_text = [],
                      lines = [''{1}'', [], ''oops'', ''{2}'', ''{3}'', ''{4}''], broken = None \<rparr>"

definition demo_thread :: ollama_thread where
  "demo_thread = \<lparr> thread_model = ''llama2:13b'', thread_prompt = ''hi'',
                    thread_api_url = ''http://localhost:11434'',
                    thread_system_prompt =
                      ''You are %model%, an AI assistant with %parameters% billion parameters.'',
                    thread_use_streaming = True \<rparr>"

definition nobody :: user where
  "nobody = \<lparr> model_dialog = ModelRejected, prompt_dialog = PromptRejected \<rparr>"

definition picks_llama :: user where
  "picks_llama = \<lparr> model_dialog = ModelAccepted ''http://localhost:11434'' ''llama2:13b'',
                    prompt_dialog = PromptRejected \<rparr>"

definition demo_gui :: gui where
  "demo_gui = show_model_dialog picks_llama (init_gui (Config (Some []) (Some True)))"

definition history_after :: "event list \<Rightarrow> gui \<Rightarrow> message list option" where
  "history_after evs s =
     (case run_events evs s of Inl e \<Rightarrow> None | Inr s1 \<Rightarrow> Some (conversation_history s1))"



definition turns_streaming_off :: user where
  "turns_streaming_off = \<lparr> model_dialog = ModelRejected,
                           prompt_dialog = PromptSaved [] False True \<rparr>"

definition accumulating_after :: "event list \<Rightarrow> gui \<Rightarrow> bool option" where
  "accumulating_after evs s =
     (case run_events evs s of
        Inl e \<Rightarrow> None
      | Inr s1 \<Rightarrow> Some (current_streaming_bubble s1 \<noteq> None))"

definition demo_template :: template where
  "demo_template = (''You are '', [(ModelName, '', an AI assistant with ''),
                                    (ParameterCount, '' billion parameters.'')])"

definition demo_overlap_thread :: ollama_thread where
  "demo_overlap_thread = demo_thread \<lparr> thread_system_prompt := ''%parameters%model%parameters%'' \<rparr>"


section \<open>Claims about the formatter\<close>

text \<open>
  C1 (as stated): the formatter gives size hint "7" for
  "user/CodeLlama-7b-Instruct:latest". It does not: the size pattern is searched only in
  the tag after the colon, which is "latest" here, so the size hint is empty.
\<close>

theorem C1_size_hint_counterexample:
  "size_info (format_model_name ''user/CodeLlama-7b-Instruct:latest'') \<noteq> ''7''"
  by code_simp

text \<open>
  C1 (amended): "user/CodeLlama-7b-Instruct:latest" is formatted as
  "CodeLlama 7b Instruct" with an empty size hint; "llama2:13b" is formatted as "Llama2"
  with size hint "13b", whose parameter count (the letter stripped) is "13"; "mistral"
  has an empty size hint.
\<close>

theorem C1_format_examples:
  "format_model_name ''user/CodeLlama-7b-Instruct:latest'' =
     \<lparr> formatted_name = ''CodeLlama 7b Instruct'', size_info = [],
       original_name = ''user/CodeLlama-7b-Instruct:latest'', base_family = ''CodeLlama'' \<rparr>
   \<and> format_model_name ''llama2:13b'' =
     \<lparr> formatted_name = ''Llama2'', size_info = ''13b'',
       original_name = ''llama2:13b'', base_family = ''Llama2'' \<rparr>
   \<and> extract_param_count (size_info (format_model_name ''llama2:13b'')) = ''13''
   \<and> size_info (format_model_name ''mistral'') = []"
  by code_simp

section \<open>Lemmas about \<open>replace\<close> and the size pattern\<close>

lemma replace_skip:
  "c \<notin> set xs \<Longrightarrow> replace (c # old) new (xs @ ys) = xs @ replace (c # old) new ys"
  by (induction xs) auto

lemma replace_hit:
  "replace (c # old) new (c # old @ ys) = new @ replace (c # old) new ys"
  by simp

lemma replace_absent:
  "c \<notin> set xs \<Longrightarrow> replace (c # old) new xs = xs"
  using replace_skip [of c xs old new "[]"] by simp

lemma replace_none:
  "old \<noteq> [] \<Longrightarrow> \<not> sublist old s \<Longrightarrow> replace old new s = s"
proof (induction s)
  case Nil
  then show ?case by simp
next
  case (Cons c cs)
  from Cons.prems(2) have np: "\<not> prefix old (c # cs)" and ns: "\<not> sublist old cs"
    by (simp_all add: sublist_Cons_right)
  with Cons.IH [OF Cons.prems(1) ns] Cons.prems(1) show ?case by simp
qed

lemma replace_first:
  assumes "old \<noteq> []" and "\<not> sublist old (pre @ butlast old)"
  shows "replace old new (pre @ old @ rest) = pre @ new @ replace old new rest"
  using assms(2)
proof (induction pre)
  case Nil
  from assms(1) obtain a os where old: "old = a # os" by (cases old) auto
  show ?case using replace_hit [of a os new rest] by (simp add: old)
next
  case (Cons c pre)
  have np: "\<not> prefix old (c # pre @ old @ rest)"
  proof
    assume "prefix old (c # pre @ old @ rest)"
    moreover have "c # pre @ old @ rest = ((c # pre) @ butlast old) @ [last old] @ rest"
      using assms(1) append_butlast_last_id [of old] by (metis append.assoc append_Cons)
    ultimately have p: "prefix old (((c # pre) @ butlast old) @ [last old] @ rest)"
      by simp
    have "length old \<le> length ((c # pre) @ butlast old)" by simp
    with p have "prefix old ((c # pre) @ butlast old)"
      by (metis prefix_length_prefix prefixI)
    then have "sublist old ((c # pre) @ butlast old)" by (rule prefix_imp_sublist)
    with Cons.prems show False by simp
  qed
  have "\<not> sublist old (pre @ butlast old)"
    using Cons.prems by (simp add: sublist_Cons_right)
  from Cons.IH [OF this] np assms(1) show ?case by simp
qed

lemma lower_char_b: "lower_char (CHR ''b'') = CHR ''b''" "lower_char (CHR ''B'') = CHR ''b''"
  by code_simp+

lemma is_b_lower: "is_b l \<Longrightarrow> lower_char l = CHR ''b''"
  unfolding is_b_def using lower_char_b by blast

lemma extract_param_count_strip:
  assumes "is_b l"
  shows "extract_param_count (n @ [l]) = n"
proof -
  have "lower (n @ [l]) = lower n @ ''b''"
    using assms by (simp add: lower_def is_b_lower)
  then have "suffix ''b'' (lower (n @ [l]))"
    by (rule suffixI)
  then show ?thesis
    by (simp add: extract_param_count_def)
qed

section \<open>The streaming worker\<close>

lemma map_of_mem: "map_of kvs k = Some v \<Longrightarrow> k \<in> fst ` set kvs"
  by (metis domI dom_map_of_conv_image_fst)

lemma object_without_response:
  "''response'' \<notin> set (map fst kvs) \<Longrightarrow> map_of kvs ''response'' = None"
  by (simp add: map_of_eq_None_iff)

lemma passing_value:
  assumes "contains_response j = Inr True" and "get_response j = Inr (JString chunk)"
  shows "\<exists>kvs. j = JObject kvs \<and> map_of kvs ''response'' = Some (JString chunk)"
proof (cases j)
  case (JObject kvs)
  with assms(2) show ?thesis
    by (cases "map_of kvs ''response''") (simp_all add: get_response_def)
qed (use assms(2) in \<open>simp_all add: get_response_def\<close>)

lemma skipped_value:
  assumes "contains_response j = Inr False"
  shows "(case j of JObject kvs \<Rightarrow>
            (case map_of kvs ''response'' of Some (JString chunk) \<Rightarrow> [chunk] | _ \<Rightarrow> [])
          | _ \<Rightarrow> []) = []"
proof (cases j)
  case (JObject kvs)
  with assms have "''response'' \<notin> set (map fst kvs)" by (simp add: contains_response_def)
  then have "map_of kvs ''response'' = None" by (rule object_without_response)
  with JObject show ?thesis by simp
qed simp_all

lemma stream_lines_step:
  assumes "line_passes loads line"
  shows "stream_lines loads full (line # rest) =
          (case stream_lines loads (full @ concat (line_chunk loads line)) rest of
             (sigs, warned, r) \<Rightarrow>
               (map streaming_chunk_received (line_chunk loads line) @ sigs,
                unparsable loads [line] @ warned, r))"
proof (cases "line = []")
  case True
  then show ?thesis by (simp add: line_chunk_def unparsable_def split: prod.splits)
next
  case ne: False
  show ?thesis
  proof (cases "loads line")
    case JSONDecodeError
    with ne show ?thesis by (simp add: line_chunk_def unparsable_def split: prod.splits)
  next
    case (OtherError e)
    with ne assms show ?thesis by (simp add: line_passes_def)
  next
    case (Decoded j)
    show ?thesis
    proof (cases "contains_response j")
      case (Inl e)
      with ne Decoded assms show ?thesis by (simp add: line_passes_def)
    next
      case (Inr b)
      show ?thesis
      proof (cases b)
        case False
        with Inr have c: "contains_response j = Inr False" by simp
        have "line_chunk loads line = []"
          using ne Decoded skipped_value [OF c] by (simp add: line_chunk_def)
        with ne Decoded c show ?thesis
          by (simp add: unparsable_def split: prod.splits)
      next
        case True
        with Inr have c: "contains_response j = Inr True" by simp
        from ne Decoded c assms obtain chunk where g: "get_response j = Inr (JString chunk)"
          by (auto simp: line_passes_def split: sum.splits json.splits)
        from passing_value [OF c g] obtain kvs where
          j: "j = JObject kvs" "map_of kvs ''response'' = Some (JString chunk)" by blast
        have "line_chunk loads line = [chunk]"
          using ne Decoded j by (simp add: line_chunk_def)
        with ne Decoded c g show ?thesis
          by (simp add: unparsable_def split: prod.splits)
      qed
    qed
  qed
qed

lemma stream_lines_raises:
  assumes "\<not> line_passes loads line"
  shows "\<exists>e. stream_lines loads full (line # rest) = ([], [], Inl e)"
proof -
  from assms have ne: "line \<noteq> []" by (auto simp: line_passes_def)
  show ?thesis
  proof (cases "loads line")
    case JSONDecodeError
    with ne assms show ?thesis by (simp add: line_passes_def)
  next
    case (OtherError e)
    with ne show ?thesis by simp
  next
    case (Decoded j)
    show ?thesis
    proof (cases "contains_response j")
      case (Inl e)
      with ne Decoded show ?thesis by simp
    next
      case (Inr b)
      with ne Decoded assms have b: "b = True" by (cases b) (simp_all add: line_passes_def)
      show ?thesis
      proof (cases "get_response j")
        case (Inl e)
        with ne Decoded Inr b show ?thesis by simp
      next
        case g: (Inr v)
        with ne Decoded Inr b assms have "\<nexists>chunk. v = JString chunk"
          by (auto simp: line_passes_def)
        with ne Decoded Inr b g show ?thesis by (cases v) simp_all
      qed
    qed
  qed
qed

lemma stream_lines_prefix:
  "list_all (line_passes loads) good \<Longrightarrow>
   stream_lines loads full (good @ rest) =
     (case stream_lines loads (full @ concat (chunks_of loads good)) rest of
        (sigs, warned, r) \<Rightarrow>
          (map streaming_chunk_received (chunks_of loads good) @ sigs,
           unparsable loads good @ warned, r))"
proof (induction good arbitrary: full)
  case Nil
  then show ?case by (simp add: chunks_of_def unparsable_def split: prod.splits)
next
  case (Cons line good)
  then have pl: "line_passes loads line" and g: "list_all (line_passes loads) good"
    by simp_all
  have "stream_lines loads full ((line # good) @ rest) = stream_lines loads full (line # good @ rest)"
    by simp
  also have "\<dots> = (case stream_lines loads (full @ concat (line_chunk loads line)) (good @ rest) of
             (sigs, warned, r) \<Rightarrow>
               (map streaming_chunk_received (line_chunk loads line) @ sigs,
                unparsable loads [line] @ warned, r))"
    by (rule stream_lines_step [OF pl])
  finally show ?case
    unfolding Cons.IH [OF g]
    by (simp add: chunks_of_def unparsable_def split: prod.splits)
qed

lemma stream_lines_complete:
  "list_all (line_passes loads) lns \<Longrightarrow>
   stream_lines loads full lns =
     (map streaming_chunk_received (chunks_of loads lns), unparsable loads lns,
      Inr (full @ concat (chunks_of loads lns)))"
  using stream_lines_prefix [of loads lns full "[]"] by simp

lemma stream_lines_aborted:
  assumes "\<not> list_all (line_passes loads) lns"
  shows "\<exists>e. stream_lines loads full lns =
           (map streaming_chunk_received (chunks_of loads (takeWhile (line_passes loads) lns)),
            unparsable loads (takeWhile (line_passes loads) lns), Inl e)"
proof -
  let ?good = "takeWhile (line_passes loads) lns"
  from assms have "dropWhile (line_passes loads) lns \<noteq> []"
    by (simp add: list_all_iff)
  then obtain bad rest where d: "dropWhile (line_passes loads) lns = bad # rest"
    by (cases "dropWhile (line_passes loads) lns") auto
  then have bad: "\<not> line_passes loads bad"
    using hd_dropWhile [of "line_passes loads" lns] by fastforce
  have split: "lns = ?good @ bad # rest"
    using d takeWhile_dropWhile_id [of "line_passes loads" lns] by simp
  have good: "list_all (line_passes loads) ?good"
    by (simp add: list_all_iff) (meson set_takeWhileD)
  from stream_lines_raises [OF bad] obtain e where
    e: "stream_lines loads (full @ concat (chunks_of loads ?good)) (bad # rest) = ([], [], Inl e)"
    by blast
  have "stream_lines loads full (?good @ bad # rest) =
          (map streaming_chunk_received (chunks_of loads ?good), unparsable loads ?good, Inl e)"
    unfolding stream_lines_prefix [OF good] e by simp
  with split show ?thesis by metis
qed

lemma protocol_line_passes: "protocol_line loads line \<Longrightarrow> line_passes loads line"
proof (cases "line = []")
  case True
  then show ?thesis by (simp add: line_passes_def)
next
  case ne: False
  assume pl: "protocol_line loads line"
  show ?thesis
  proof (cases "loads line")
    case JSONDecodeError
    with ne show ?thesis by (simp add: line_passes_def)
  next
    case (OtherError e)
    with ne pl show ?thesis by (simp add: protocol_line_def)
  next
    case (Decoded j)
    with ne pl obtain kvs where j: "j = JObject kvs"
      by (cases j) (simp_all add: protocol_line_def)
    show ?thesis
    proof (cases "map_of kvs ''response''")
      case None
      then have "''response'' \<notin> set (map fst kvs)" by (simp add: map_of_eq_None_iff)
      with ne Decoded j show ?thesis by (simp add: line_passes_def contains_response_def)
    next
      case (Some v)
      then have mem: "''response'' \<in> set (map fst kvs)" using map_of_mem by fastforce
      from Some ne pl Decoded j obtain chunk where "v = JString chunk"
        by (cases v) (simp_all add: protocol_line_def)
      with ne Decoded j Some mem show ?thesis
        by (simp add: line_passes_def contains_response_def get_response_def)
    qed
  qed
qed

lemma demo_passes: "list_all (line_passes demo_loads) (lines demo_response)"
  by (simp add: demo_response_def line_passes_def demo_loads_def contains_response_def
                get_response_def)

lemma demo_chunks: "chunks_of demo_loads (lines demo_response) = [''Hel'', ''lo'', '' world'']"
  by (simp add: demo_response_def chunks_of_def line_chunk_def demo_loads_def)

lemma demo_unparsable: "unparsable demo_loads (lines demo_response) = [''oops'']"
  by (simp add: demo_response_def unparsable_def demo_loads_def)

lemma demo_broken_passes: "list_all (line_passes demo_loads) (lines demo_broken)"
  by (simp add: demo_broken_def line_passes_def demo_loads_def contains_response_def
                get_response_def)

lemma demo_broken_chunks: "chunks_of demo_loads (lines demo_broken) = [''Hel'', ''lo'']"
  by (simp add: demo_broken_def chunks_of_def line_chunk_def demo_loads_def)

lemma demo_broken_unparsable: "unparsable demo_loads (lines demo_broken) = []"
  by (simp add: demo_broken_def unparsable_def demo_loads_def)

lemma demo_number_fails: "\<not> list_all (line_passes demo_loads) (lines demo_number_line)"
  by (simp add: demo_number_line_def line_passes_def demo_loads_def contains_response_def
                get_response_def)

lemma demo_number_prefix:
  "takeWhile (line_passes demo_loads) (lines demo_number_line) = [''{1}'']"
  by (simp add: demo_number_line_def line_passes_def demo_loads_def contains_response_def
                get_response_def)

lemma demo_number_chunks: "chunks_of demo_loads [''{1}''] = [''Hel'']"
  by (simp add: chunks_of_def line_chunk_def demo_loads_def)

lemma demo_number_unparsable: "unparsable demo_loads [''{1}''] = []"
  by (simp add: unparsable_def demo_loads_def)

lemma str_nat_404: "str_nat 404 = ''404''"
  by (simp add: str_nat.simps)

text \<open>
  C5 (as stated): with a first status of 200 the last event of the worker is one final
  event. It is not when the connection breaks after some lines, nor when a line decodes
  to a JSON value on which the membership test raises (here the number 5): the chunks of
  the earlier lines are emitted and the last event is an error event.
\<close>

theorem C5_final_event_counterexample:
  "run_streaming demo_loads (PostReturned demo_broken) =
     ([streaming_chunk_received ''Hel'', streaming_chunk_received ''lo'',
       error_occurred ''Network error: Connection broken''], [])
   \<and> fst (run_streaming demo_loads (PostReturned demo_number_line)) =
       [streaming_chunk_received ''Hel'',
        error_occurred (''Error: argument of type '' @ [CHR 0x27] @ ''int'' @ [CHR 0x27]
                        @ '' is not iterable'')]"
  by (simp add: run_streaming_def demo_broken_def demo_number_line_def demo_loads_def
                contains_response_def get_response_def type_name_def)

text \<open>
  C5 (amended): in streaming mode with a first status of 200, as long as no line makes the
  body of the loop raise (every line of the protocol is such a line: empty, not JSON, or
  an object whose "response", when present, is a string), the worker emits the text
  chunks in arrival order and skips the lines that are not JSON, each reported by the
  warning. When the stream runs to its end, the last event is one final event that
  carries the concatenation of the chunks emitted. When the connection breaks, or a line
  makes the body raise, the last event is an error event instead, after the chunks of
  the lines before. With another first status the worker emits one error event and no
  chunk event.
\<close>

theorem C5_streaming_worker:
  "(status_code r = 200 \<longrightarrow> broken r = None \<longrightarrow> list_all (line_passes loads) (lines r) \<longrightarrow>
      run_streaming loads (PostReturned r) =
        (map streaming_chunk_received (chunks_of loads (lines r))
           @ [response_received (concat (chunks_of loads (lines r)))],
         unparsable loads (lines r)))
   \<and> (status_code r = 200 \<longrightarrow> broken r = Some e \<longrightarrow> list_all (line_passes loads) (lines r) \<longrightarrow>
      run_streaming loads (PostReturned r) =
        (map streaming_chunk_received (chunks_of loads (lines r))
           @ [error_occurred (''Network error: '' @ e)],
         unparsable loads (lines r)))
   \<and> (status_code r = 200 \<longrightarrow> \<not> list_all (line_passes loads) (lines r) \<longrightarrow>
      (\<exists>x. run_streaming loads (PostReturned r) =
        (map streaming_chunk_received
             (chunks_of loads (takeWhile (line_passes loads) (lines r)))
           @ [error_occurred (''Error: '' @ x)],
         unparsable loads (takeWhile (line_passes loads) (lines r)))))
   \<and> (status_code r \<noteq> 200 \<longrightarrow>
      run_streaming loads (PostReturned r) =
        ([error_occurred (''Error: Status code '' @ str_nat (status_code r) @ '' - ''
                          @ body_text r)], []))
   \<and> (list_all (protocol_line loads) (lines r) \<longrightarrow> list_all (line_passes loads) (lines r))"
proof (intro conjI impI)
  assume "status_code r = 200" "broken r = None" "list_all (line_passes loads) (lines r)"
  then show "run_streaming loads (PostReturned r) =
        (map streaming_chunk_received (chunks_of loads (lines r))
           @ [response_received (concat (chunks_of loads (lines r)))],
         unparsable loads (lines r))"
    by (simp add: run_streaming_def stream_lines_complete)
next
  assume "status_code r = 200" "broken r = Some e" "list_all (line_passes loads) (lines r)"
  then show "run_streaming loads (PostReturned r) =
        (map streaming_chunk_received (chunks_of loads (lines r))
           @ [error_occurred (''Network error: '' @ e)],
         unparsable loads (lines r))"
    by (simp add: run_streaming_def stream_lines_complete)
next
  assume st: "status_code r = 200" and "\<not> list_all (line_passes loads) (lines r)"
  from stream_lines_aborted [OF this(2), of "[]"] obtain x where
    "stream_lines loads [] (lines r) =
       (map streaming_chunk_received (chunks_of loads (takeWhile (line_passes loads) (lines r))),
        unparsable loads (takeWhile (line_passes loads) (lines r)), Inl x)"
    by blast
  with st have "run_streaming loads (PostReturned r) =
        (map streaming_chunk_received
             (chunks_of loads (takeWhile (line_passes loads) (lines r)))
           @ [error_occurred (''Error: '' @ x)],
         unparsable loads (takeWhile (line_passes loads) (lines r)))"
    by (simp add: run_streaming_def)
  then show "\<exists>x. run_streaming loads (PostReturned r) =
        (map streaming_chunk_received
             (chunks_of loads (takeWhile (line_passes loads) (lines r)))
           @ [error_occurred (''Error: '' @ x)],
         unparsable loads (takeWhile (line_passes loads) (lines r)))"
    by blast
next
  assume "status_code r \<noteq> 200"
  then show "run_streaming loads (PostReturned r) =
        ([error_occurred (''Error: Status code '' @ str_nat (status_code r) @ '' - ''
                          @ body_text r)], [])"
    by (simp add: run_streaming_def)
next
  assume "list_all (protocol_line loads) (lines r)"
  then show "list_all (line_passes loads) (lines r)"
    by (simp add: list_all_iff protocol_line_passes)
qed

theorem C5_streaming_worker_witness:
  "status_code demo_response = 200 \<and> broken demo_response = None
   \<and> list_all (line_passes demo_loads) (lines demo_response)
   \<and> run_streaming demo_loads (PostReturned demo_response) =
        ([streaming_chunk_received ''Hel'', streaming_chunk_received ''lo'',
          streaming_chunk_received '' world'', response_received ''Hello world''],
         [''oops''])
   \<and> status_code demo_broken = 200 \<and> broken demo_broken = Some ''Connection broken''
   \<and> list_all (line_passes demo_loads) (lines demo_broken)
   \<and> run_streaming demo_loads (PostReturned demo_broken) =
        ([streaming_chunk_received ''Hel'', streaming_chunk_received ''lo'',
          error_occurred ''Network error: Connection broken''], [])
   \<and> status_code demo_number_line = 200
   \<and> \<not> list_all (line_passes demo_loads) (lines demo_number_line)
   \<and> (\<exists>x. run_streaming demo_loads (PostReturned demo_number_line) =
        ([streaming_chunk_received ''Hel'', error_occurred (''Error: '' @ x)], []))
   \<and> status_code demo_not_found \<noteq> 200
   \<and> run_streaming demo_loads (PostReturned demo_not_found) =
        ([error_occurred ''Error: Status code 404 - not found''], [])"
proof -
  have h1: "status_code demo_response = 200" and h2: "broken demo_response = None"
    by (simp_all add: demo_response_def)
  have "run_streaming demo_loads (PostReturned demo_response) =
        (map streaming_chunk_received (chunks_of demo_loads (lines demo_response))
           @ [response_received (concat (chunks_of demo_loads (lines demo_response)))],
         unparsable demo_loads (lines demo_response))"
    using C5_streaming_worker [where r = demo_response and loads = demo_loads, THEN conjunct1]
          h1 h2 demo_passes
    by blast
  then have ok: "run_streaming demo_loads (PostReturned demo_response) =
        ([streaming_chunk_received ''Hel'', streaming_chunk_received ''lo'',
          streaming_chunk_received '' world'', response_received ''Hello world''],
         [''oops''])"
    by (simp add: demo_chunks demo_unparsable)
  have b1: "status_code demo_broken = 200" and b2: "broken demo_broken = Some ''Connection broken''"
    by (simp_all add: demo_broken_def)
  have "run_streaming demo_loads (PostReturned demo_broken) =
        (map streaming_chunk_received (chunks_of demo_loads (lines demo_broken))
           @ [error_occurred (''Network error: '' @ ''Connection broken'')],
         unparsable demo_loads (lines demo_broken))"
    using C5_streaming_worker
            [where r = demo_broken and loads = demo_loads and e = "''Connection broken''",
             THEN conjunct2, THEN conjunct1]
          b1 b2 demo_broken_passes
    by blast
  then have brk: "run_streaming demo_loads (PostReturned demo_broken) =
        ([streaming_chunk_received ''Hel'', streaming_chunk_received ''lo'',
          error_occurred ''Network error: Connection broken''], [])"
    by (simp add: demo_broken_chunks demo_broken_unparsable)
  have n1: "status_code demo_number_line = 200" by (simp add: demo_number_line_def)
  have "\<exists>x. run_streaming demo_loads (PostReturned demo_number_line) =
        (map streaming_chunk_received
             (chunks_of demo_loads (takeWhile (line_passes demo_loads) (lines demo_number_line)))
           @ [error_occurred (''Error: '' @ x)],
         unparsable demo_loads (takeWhile (line_passes demo_loads) (lines demo_number_line)))"
    using C5_streaming_worker
            [where r = demo_number_line and loads = demo_loads,
             THEN conjunct2, THEN conjunct2, THEN conjunct1]
          n1 demo_number_fails
    by blast
  then have num: "\<exists>x. run_streaming demo_loads (PostReturned demo_number_line) =
        ([streaming_chunk_received ''Hel'', error_occurred (''Error: '' @ x)], [])"
    by (simp add: demo_number_prefix demo_number_chunks demo_number_unparsable)
  have h3: "status_code demo_not_found \<noteq> 200" by (simp add: demo_not_found_def)
  have "run_streaming demo_loads (PostReturned demo_not_found) =
        ([error_occurred (''Error: Status code '' @ str_nat (status_code demo_not_found)
                          @ '' - '' @ body_text demo_not_found)], [])"
    using C5_streaming_worker
            [where r = demo_not_found and loads = demo_loads,
             THEN conjunct2, THEN conjunct2, THEN conjunct2, THEN conjunct1]
          h3
    by (rule mp)
  then have bad: "run_streaming demo_loads (PostReturned demo_not_found) =
        ([error_occurred ''Error: Status code 404 - not found''], [])"
    by (simp add: demo_not_found_def str_nat_404)
  from h1 h2 demo_passes ok b1 b2 demo_broken_passes brk n1 demo_number_fails num h3 bad
  show ?thesis by (intro conjI)
qed

section \<open>The system prompt in the request\<close>

lemma isdigit_not_b: "isdigit c \<Longrightarrow> \<not> is_b c"
  by (auto simp: isdigit_def is_b_def)

lemma isdigit_not_dot: "isdigit c \<Longrightarrow> c \<noteq> CHR ''.''"
  by (auto simp: isdigit_def)

lemma dot_not_b: "\<not> is_b (CHR ''.'')" "\<not> isdigit (CHR ''.'')"
  by (simp_all add: is_b_def isdigit_def)

lemma takeWhile_digits:
  "list_all isdigit d \<Longrightarrow> \<not> isdigit c \<Longrightarrow> takeWhile isdigit (d @ c # r) = d"
  by (induction d) auto

lemma dropWhile_digits:
  "list_all isdigit d \<Longrightarrow> \<not> isdigit c \<Longrightarrow> dropWhile isdigit (d @ c # r) = c # r"
  by (induction d) auto

lemma size_match_at_int:
  assumes "digits d" and "is_b l"
  shows "size_match_at (d @ l # post) = Some (d @ [l])"
proof -
  have nd: "\<not> isdigit l" using assms(2) isdigit_not_b by blast
  have d: "list_all isdigit d" "d \<noteq> []" using assms(1) by (simp_all add: digits_def)
  show ?thesis
    using assms(2) d(2)
    by (simp add: size_match_at_def takeWhile_digits [OF d(1) nd] dropWhile_digits [OF d(1) nd])
qed

lemma size_match_at_float:
  assumes "digits d1" and "digits d2" and "is_b l"
  shows "size_match_at (d1 @ CHR ''.'' # d2 @ l # post) = Some (d1 @ CHR ''.'' # d2 @ [l])"
proof -
  have nd: "\<not> isdigit l" using assms(3) isdigit_not_b by blast
  have d1: "list_all isdigit d1" "d1 \<noteq> []" using assms(1) by (simp_all add: digits_def)
  have d2: "list_all isdigit d2" "d2 \<noteq> []" using assms(2) by (simp_all add: digits_def)
  show ?thesis
    using assms(3) d1(2) d2(2) dot_not_b
    by (simp add: size_match_at_def takeWhile_digits [OF d1(1) dot_not_b(2)]
                  dropWhile_digits [OF d1(1) dot_not_b(2)]
                  takeWhile_digits [OF d2(1) nd] dropWhile_digits [OF d2(1) nd])
qed

lemma size_match_at_complete:
  assumes "size_token m"
  shows "size_match_at (m @ post) = Some m"
proof -
  from assms obtain n l where nl: "numeric n" "is_b l" "m = n @ [l]"
    by (auto simp: size_token_def)
  from nl(1) show ?thesis
    unfolding numeric_def
  proof (elim disjE exE conjE)
    assume "digits n"
    from size_match_at_int [OF this nl(2), of post] nl(3) show ?thesis by simp
  next
    fix d1 d2 assume "digits d1" "digits d2" "n = d1 @ CHR ''.'' # d2"
    with size_match_at_float [OF this(1,2) nl(2), of post] nl(3) show ?thesis by simp
  qed
qed

lemma takeWhile_digits_all: "list_all isdigit (takeWhile isdigit s)"
  by (induction s) auto

lemma size_match_at_sound:
  assumes "size_match_at s = Some m"
  shows "size_token m \<and> prefix m s"
proof -
  let ?d1 = "takeWhile isdigit s" and ?r1 = "dropWhile isdigit s"
  have s: "s = ?d1 @ ?r1" by simp
  from assms have d1: "?d1 \<noteq> []" by (auto simp: size_match_at_def Let_def)
  then have dg1: "digits ?d1" by (simp add: digits_def takeWhile_digits_all)
  from assms d1
  have E1: "(case ?r1 of [] \<Rightarrow> None
             | c # r2 \<Rightarrow>
                 if is_b c then Some (?d1 @ [c])
                 else if c = CHR ''.'' then
                   (let d2 = takeWhile isdigit r2; r3 = dropWhile isdigit r2 in
                    if d2 = [] then None
                    else case r3 of
                           [] \<Rightarrow> None
                         | e # _ \<Rightarrow> if is_b e then Some (?d1 @ CHR ''.'' # d2 @ [e]) else None)
                 else None) = Some m"
    by (simp add: size_match_at_def Let_def)
  then obtain c r2 where r1: "?r1 = c # r2"
    by (cases ?r1) (auto simp del: dropWhile_eq_Nil_conv)
  show ?thesis
  proof (cases "is_b c")
    case True
    with assms d1 r1 have m: "m = ?d1 @ [c]" by (auto simp: size_match_at_def Let_def)
    have "numeric ?d1" using dg1 by (simp add: numeric_def)
    then have "size_token m" using True m by (auto simp: size_token_def)
    moreover have "prefix m s"
    proof -
      have "s = m @ r2" using s r1 m by (metis append.assoc append_Cons append_Nil)
      then show ?thesis by (metis prefixI)
    qed
    ultimately show ?thesis by blast
  next
    case False
    with assms d1 r1 have dot: "c = CHR ''.''"
      by (auto simp: size_match_at_def Let_def split: if_splits)
    let ?d2 = "takeWhile isdigit r2" and ?r3 = "dropWhile isdigit r2"
    from assms d1 r1 False dot have d2: "?d2 \<noteq> []"
      by (auto simp: size_match_at_def Let_def split: if_splits)
    then have dg2: "digits ?d2" by (simp add: digits_def takeWhile_digits_all)
    from assms d1 r1 False dot d2
    have E: "(case ?r3 of [] \<Rightarrow> None
              | e # x \<Rightarrow> if is_b e then Some (?d1 @ CHR ''.'' # ?d2 @ [e]) else None) = Some m"
      by (simp add: size_match_at_def Let_def)
    then obtain e r4 where r3: "?r3 = e # r4"
      by (cases ?r3) (auto simp del: dropWhile_eq_Nil_conv)
    from E have e: "is_b e" and m: "m = ?d1 @ CHR ''.'' # ?d2 @ [e]"
      unfolding r3 by (auto split: if_splits)
    have "numeric (?d1 @ CHR ''.'' # ?d2)" using dg1 dg2 by (auto simp: numeric_def)
    then have "size_token m" using e m by (auto simp: size_token_def)
    moreover have "prefix m s"
    proof -
      have "r2 = ?d2 @ e # r4" using r3 by (metis takeWhile_dropWhile_id)
      then have "s = ?d1 @ CHR ''.'' # ?d2 @ e # r4" using s r1 dot by metis
      then have "s = m @ r4" using m by simp
      then show ?thesis by (metis prefixI)
    qed
    ultimately show ?thesis by blast
  qed
qed

lemma size_match_at_iff: "size_match_at s = Some m \<longleftrightarrow> size_token m \<and> prefix m s"
proof
  assume "size_match_at s = Some m"
  then show "size_token m \<and> prefix m s" by (rule size_match_at_sound)
next
  assume "size_token m \<and> prefix m s"
  then obtain post where "size_token m" "s = m @ post" by (auto simp: prefix_def)
  then show "size_match_at s = Some m" using size_match_at_complete by blast
qed

lemma size_token_nonempty: "size_token m \<Longrightarrow> m \<noteq> []"
  by (auto simp: size_token_def)

lemma size_search_none:
  "size_search s = None \<Longrightarrow> s = pre @ tok @ post \<Longrightarrow> \<not> size_token tok"
proof (induction s arbitrary: pre)
  case Nil
  then show ?case using size_token_nonempty by auto
next
  case (Cons c cs)
  from Cons.prems(1) have m: "size_match_at (c # cs) = None" and r: "size_search cs = None"
    by (auto split: option.splits)
  show ?case
  proof (cases pre)
    case Nil
    show ?thesis
    proof
      assume "size_token tok"
      then have "size_match_at (tok @ post) = Some tok" by (rule size_match_at_complete)
      with Cons.prems(2) Nil m show False by simp
    qed
  next
    case (Cons c' pre')
    with Cons.prems(2) have "cs = pre' @ tok @ post" by simp
    with Cons.IH [OF r] show ?thesis by blast
  qed
qed

lemma size_search_some:
  "size_search s = Some m \<Longrightarrow> size_token m \<and> (\<exists>pre post. s = pre @ m @ post)"
proof (induction s)
  case Nil
  then show ?case by simp
next
  case (Cons c cs)
  show ?case
  proof (cases "size_match_at (c # cs)")
    case None
    with Cons.prems have "size_search cs = Some m" by simp
    from Cons.IH [OF this] obtain pre post where "size_token m" "cs = pre @ m @ post" by blast
    then have "c # cs = (c # pre) @ m @ post" by simp
    with \<open>size_token m\<close> show ?thesis by blast
  next
    case (Some m')
    with Cons.prems have "m' = m" by simp
    with Some have "size_token m" "prefix m (c # cs)" using size_match_at_sound by blast+
    then obtain post where "c # cs = [] @ m @ post" by (auto simp: prefix_def)
    with \<open>size_token m\<close> show ?thesis by blast
  qed
qed

lemma size_search_leftmost:
  assumes "s = pre @ tok @ post" and "size_token tok"
    and "\<And>pre' tok' post'. s = pre' @ tok' @ post' \<Longrightarrow> size_token tok' \<Longrightarrow> length pre \<le> length pre'"
  shows "size_search s = Some tok"
  using assms
proof (induction pre arbitrary: s)
  case Nil
  from Nil(2) have "size_match_at (tok @ post) = Some tok" by (rule size_match_at_complete)
  moreover from Nil(2) obtain c cs where "tok @ post = c # cs"
    using size_token_nonempty by (cases "tok @ post") auto
  ultimately show ?case using Nil(1) by simp
next
  case (Cons c pre)
  have none: "size_match_at s = None"
  proof (cases "size_match_at s")
    case (Some m)
    then have "size_token m" "prefix m s" using size_match_at_sound by blast+
    then obtain q where "s = [] @ m @ q" by (auto simp: prefix_def)
    from Cons.prems(3) [OF this \<open>size_token m\<close>] show ?thesis by simp
  qed simp
  have left: "length pre \<le> length pre'"
    if "pre @ tok @ post = pre' @ tok' @ post'" "size_token tok'" for pre' tok' post'
  proof -
    from that(1) Cons.prems(1) have "s = (c # pre') @ tok' @ post'" by simp
    from Cons.prems(3) [OF this that(2)] show ?thesis by simp
  qed
  have "size_search (pre @ tok @ post) = Some tok"
    using Cons.IH [OF refl Cons.prems(2)] left by blast
  with none Cons.prems(1) show ?case by simp
qed

lemma size_info_by_tag:
  "size_info (format_model_name name0) =
     (case model_tag name0 of
        None \<Rightarrow> []
      | Some tag \<Rightarrow> (case size_search tag of Some m \<Rightarrow> m | None \<Rightarrow> []))"
  unfolding format_model_name_def model_tag_def
  by (simp add: Let_def case_prod_beta)

lemma takeWhile_upto:
  "c \<notin> set t \<Longrightarrow> takeWhile (\<lambda>x. x \<noteq> c) (t @ c # r) = t"
  by (induction t) auto

lemma model_prefix:
  assumes "plain t" and "prefix ''model%'' (t @ CHR ''%'' # x)"
  shows "t = ''model''"
proof -
  from assms(2) obtain z where z: "t @ CHR ''%'' # x = ''model%'' @ z"
    by (auto simp: prefix_def)
  have "takeWhile (\<lambda>c. c \<noteq> CHR ''%'') (t @ CHR ''%'' # x) = t"
    using assms(1) by (simp add: plain_def takeWhile_upto)
  moreover have "takeWhile (\<lambda>c. c \<noteq> CHR ''%'') (''model%'' @ z) = ''model''"
    by simp
  ultimately show ?thesis using z by simp
qed

lemma replace_model_over_count:
  assumes "plain t" and "\<not> prefix ''model%'' (t @ r)"
  shows "replace ''%model%'' new (''%parameters%'' @ t @ r)
           = ''%parameters%'' @ t @ replace ''%model%'' new r"
proof -
  have a: "replace ''%model%'' new (CHR ''%'' # t @ r) = CHR ''%'' # t @ replace ''%model%'' new r"
    using assms by (simp add: plain_def replace_skip)
  have "replace ''%model%'' new (''parameters'' @ CHR ''%'' # t @ r)
          = ''parameters'' @ replace ''%model%'' new (CHR ''%'' # t @ r)"
    by (rule replace_skip) simp
  then show ?thesis using a by simp
qed

lemma pass_model:
  "list_all (\<lambda>(p, t). plain t) pts \<Longrightarrow> separated pts \<Longrightarrow>
   replace ''%model%'' name (concat (map (\<lambda>(p, t). placeholder_text p @ t) pts))
     = concat (map (\<lambda>(p, t). (case p of ModelName \<Rightarrow> name | ParameterCount \<Rightarrow> ''%parameters%'') @ t)
                   pts)"
proof (induction pts)
  case Nil
  then show ?case by simp
next
  case (Cons pt pts)
  obtain p t where pt: "pt = (p, t)" by (cases pt)
  let ?r = "concat (map (\<lambda>(p, t). placeholder_text p @ t) pts)"
  from Cons.prems pt have t: "plain t" and rest: "list_all (\<lambda>(p, t). plain t) pts" by simp_all
  from Cons.prems(2) have sep: "separated pts" by (cases pts) (auto simp: pt)
  note IH = Cons.IH [OF rest sep]
  show ?case
  proof (cases p)
    case ModelName
    have "replace ''%model%'' name (''%model%'' @ t @ ?r) = name @ replace ''%model%'' name (t @ ?r)"
      using replace_hit [of "CHR ''%''" "''model%''" name "t @ ?r"] by simp
    also have "replace ''%model%'' name (t @ ?r) = t @ replace ''%model%'' name ?r"
      using t by (simp add: plain_def replace_skip)
    finally show ?thesis using IH pt ModelName by (simp add: placeholder_text_def)
  next
    case ParameterCount
    have np: "\<not> prefix ''model%'' (t @ ?r)"
    proof (cases pts)
      case Nil
      show ?thesis
      proof
        assume "prefix ''model%'' (t @ ?r)"
        with Nil have "set ''model%'' \<subseteq> set t" using set_mono_prefix by fastforce
        with t show False by (simp add: plain_def)
      qed
    next
      case (Cons qu pts')
      obtain q u where qu: "qu = (q, u)" by (cases qu)
      obtain x where x: "?r = CHR ''%'' # x"
        using Cons qu by (cases q) (simp_all add: placeholder_text_def)
      from Cons.prems(2) pt ParameterCount Cons qu have "t \<noteq> ''model''"
        using \<open>separated (pt # pts)\<close> by simp
      with model_prefix [OF t] x show ?thesis by metis
    qed
    from replace_model_over_count [OF t np]
    show ?thesis using IH pt ParameterCount by (simp add: placeholder_text_def)
  qed
qed

lemma pass_count:
  "list_all (\<lambda>(p, t). plain t) pts \<Longrightarrow> plain name \<Longrightarrow>
   replace ''%parameters%'' count
     (concat (map (\<lambda>(p, t). (case p of ModelName \<Rightarrow> name | ParameterCount \<Rightarrow> ''%parameters%'') @ t)
                  pts))
     = concat (map (\<lambda>(p, t). (case p of ModelName \<Rightarrow> name | ParameterCount \<Rightarrow> count) @ t) pts)"
proof (induction pts)
  case Nil
  then show ?case by simp
next
  case (Cons pt pts)
  obtain p t where pt: "pt = (p, t)" by (cases pt)
  let ?r = "concat (map (\<lambda>(p, t). (case p of ModelName \<Rightarrow> name | ParameterCount \<Rightarrow> ''%parameters%'') @ t)
                  pts)"
  from Cons.prems pt have t: "plain t" and rest: "list_all (\<lambda>(p, t). plain t) pts" by simp_all
  note IH = Cons.IH [OF rest Cons.prems(2)]
  show ?case
  proof (cases p)
    case ModelName
    have "CHR ''%'' \<notin> set (name @ t)" using t Cons.prems(2) by (simp add: plain_def)
    then have "replace ''%parameters%'' count ((name @ t) @ ?r)
                 = (name @ t) @ replace ''%parameters%'' count ?r"
      by (rule replace_skip)
    then show ?thesis using IH pt ModelName by simp
  next
    case ParameterCount
    have "replace ''%parameters%'' count (''%parameters%'' @ t @ ?r)
            = count @ replace ''%parameters%'' count (t @ ?r)"
      using replace_hit [of "CHR ''%''" "''parameters%''" count "t @ ?r"] by simp
    also have "replace ''%parameters%'' count (t @ ?r) = t @ replace ''%parameters%'' count ?r"
      using t by (simp add: plain_def replace_skip)
    finally show ?thesis using IH pt ParameterCount by simp
  qed
qed

lemma process_template_general:
  assumes "plain_template tpl" and "separated (snd tpl)"
    and "plain (formatted_name (format_model_name (thread_model thr)))"
    and "thread_system_prompt thr = template_text tpl"
  shows "process_system_prompt thr =
           fill (formatted_name (format_model_name (thread_model thr)))
                (extract_param_count (size_info (format_model_name (thread_model thr)))) tpl"
proof -
  let ?name = "formatted_name (format_model_name (thread_model thr))"
  let ?count = "extract_param_count (size_info (format_model_name (thread_model thr)))"
  obtain t0 pts where tpl: "tpl = (t0, pts)" by (cases tpl)
  from assms(1) tpl have t0: "plain t0" and texts: "list_all (\<lambda>(p, t). plain t) pts"
    by (simp_all add: plain_template_def)
  from assms(2) tpl have sep: "separated pts" by simp
  have one: "replace ''%model%'' ?name (template_text tpl)
               = t0 @ concat (map (\<lambda>(p, t). (case p of ModelName \<Rightarrow> ?name
                                              | ParameterCount \<Rightarrow> ''%parameters%'') @ t) pts)"
    using t0 pass_model [OF texts sep, of ?name]
    by (simp add: template_text_def tpl plain_def replace_skip)
  have two: "replace ''%parameters%'' ?count
               (t0 @ concat (map (\<lambda>(p, t). (case p of ModelName \<Rightarrow> ?name
                                               | ParameterCount \<Rightarrow> ''%parameters%'') @ t) pts))
               = fill ?name ?count tpl"
    using t0 pass_count [OF texts assms(3), of ?count]
    by (simp add: fill_def tpl plain_def replace_skip)
  show ?thesis
  proof (cases "template_text tpl = []")
    case True
    then have "t0 = []" and "concat (map (\<lambda>(p, t). placeholder_text p @ t) pts) = []"
      by (simp_all add: template_text_def tpl)
    then have "pts = []"
      by (cases pts) (auto simp: placeholder_text_def split: placeholder.splits)
    with \<open>t0 = []\<close> True assms(4) show ?thesis
      by (simp add: process_system_prompt_def fill_def tpl)
  next
    case False
    with assms(4) one two show ?thesis
      by (simp add: process_system_prompt_def Let_def)
  qed
qed

lemma count_of_token:
  assumes "numeric n" and "is_b l"
  shows "extract_param_count (n @ [l]) = n"
  using assms(2) by (rule extract_param_count_strip)

text \<open>
  C7 (as stated): every placeholder of the template is replaced. The two replacements are
  made one after the other, \<open>%model%\<close> first, so in "%parameters%model%parameters%" the
  percent signs of the two parameter placeholders and the word between them are taken
  for a model placeholder, and no parameter count appears in the result.
\<close>

theorem C7_overlapping_placeholders_counterexample:
  "payload_system (build_payload demo_overlap_thread) = Some ''%parametersLlama2parameters%''"
  unfolding demo_overlap_thread_def demo_thread_def by code_simp

text \<open>
  C7 (amended): with an empty system prompt the payload has no "system" field. A template
  is a text followed by placeholders, each followed by a text; the texts and the
  formatted name have no percent sign, and the text between a \<open>%parameters%\<close> and the next
  placeholder is not the word "model". In such a template every \<open>%model%\<close> is replaced by
  the formatted name of the model of the request and every \<open>%parameters%\<close> by its
  parameter count, and the result is the "system" field (no field when the result is
  empty). For any system prompt, the field is the result of replacing \<open>%model%\<close> and then
  \<open>%parameters%\<close>, where replacing a text leaves a string without it unchanged and
  otherwise puts the substitute in the place of the leftmost occurrence and goes on
  behind it. The parameter count is "unknown" when the identifier has no tag after a colon
  or the tag holds no size token (digits, optionally a dot and digits, then b or B);
  otherwise it is the leftmost size token of the tag without its letter. (Model
  identifiers are ASCII.)
\<close>

theorem C7_system_prompt_template:
  "(thread_system_prompt thr = [] \<longrightarrow> payload_system (build_payload thr) = None)
   \<and> (ascii (thread_model thr) \<longrightarrow> plain_template tpl \<longrightarrow> separated (snd tpl) \<longrightarrow>
        plain (formatted_name (format_model_name (thread_model thr))) \<longrightarrow>
        thread_system_prompt thr = template_text tpl \<longrightarrow>
        payload_system (build_payload thr) =
          (if fill (formatted_name (format_model_name (thread_model thr)))
                   (extract_param_count (size_info (format_model_name (thread_model thr)))) tpl = []
           then None
           else Some (fill (formatted_name (format_model_name (thread_model thr)))
                           (extract_param_count (size_info (format_model_name (thread_model thr))))
                           tpl)))
   \<and> (ascii (thread_model thr) \<longrightarrow> model_tag (thread_model thr) = None \<longrightarrow>
        extract_param_count (size_info (format_model_name (thread_model thr))) = ''unknown'')
   \<and> (ascii (thread_model thr) \<longrightarrow> model_tag (thread_model thr) = Some tag \<longrightarrow>
        (\<forall>pre tok post. tag = pre @ tok @ post \<longrightarrow> \<not> size_token tok) \<longrightarrow>
        extract_param_count (size_info (format_model_name (thread_model thr))) = ''unknown'')
   \<and> (ascii (thread_model thr) \<longrightarrow> model_tag (thread_model thr) = Some tag \<longrightarrow>
        tag = pre @ (n @ [l]) @ post \<longrightarrow> numeric n \<longrightarrow> is_b l \<longrightarrow>
        (\<forall>pre' tok' post'. tag = pre' @ tok' @ post' \<longrightarrow> size_token tok' \<longrightarrow>
                            length pre \<le> length pre') \<longrightarrow>
        extract_param_count (size_info (format_model_name (thread_model thr))) = n)
   \<and> (thread_system_prompt thr \<noteq> [] \<longrightarrow>
        payload_system (build_payload thr) =
          (if replace ''%parameters%''
                (extract_param_count (size_info (format_model_name (thread_model thr))))
                (replace ''%model%'' (formatted_name (format_model_name (thread_model thr)))
                   (thread_system_prompt thr)) = []
           then None
           else Some (replace ''%parameters%''
                (extract_param_count (size_info (format_model_name (thread_model thr))))
                (replace ''%model%'' (formatted_name (format_model_name (thread_model thr)))
                   (thread_system_prompt thr)))))
   \<and> (pat \<noteq> [] \<longrightarrow> \<not> sublist pat str \<longrightarrow> replace pat sub str = str)
   \<and> (pat \<noteq> [] \<longrightarrow> \<not> sublist pat (front @ butlast pat) \<longrightarrow>
        replace pat sub (front @ pat @ back) = front @ sub @ replace pat sub back)"
proof (intro conjI impI)
  assume "thread_system_prompt thr = []"
  then show "payload_system (build_payload thr) = None"
    by (simp add: build_payload_def process_system_prompt_def)
next
  assume "plain_template tpl" "separated (snd tpl)"
    "plain (formatted_name (format_model_name (thread_model thr)))"
    "thread_system_prompt thr = template_text tpl"
  then have "process_system_prompt thr =
           fill (formatted_name (format_model_name (thread_model thr)))
                (extract_param_count (size_info (format_model_name (thread_model thr)))) tpl"
    by (rule process_template_general)
  then show "payload_system (build_payload thr) =
          (if fill (formatted_name (format_model_name (thread_model thr)))
                   (extract_param_count (size_info (format_model_name (thread_model thr)))) tpl = []
           then None
           else Some (fill (formatted_name (format_model_name (thread_model thr)))
                           (extract_param_count (size_info (format_model_name (thread_model thr))))
                           tpl))"
    by (simp add: build_payload_def)
next
  assume "model_tag (thread_model thr) = None"
  then show "extract_param_count (size_info (format_model_name (thread_model thr))) = ''unknown''"
    by (simp add: size_info_by_tag extract_param_count_def)
next
  assume tag: "model_tag (thread_model thr) = Some tag"
    and no: "\<forall>pre tok post. tag = pre @ tok @ post \<longrightarrow> \<not> size_token tok"
  have "size_search tag = None"
  proof (cases "size_search tag")
    case (Some m)
    from size_search_some [OF this] no show ?thesis by blast
  qed simp
  with tag show "extract_param_count (size_info (format_model_name (thread_model thr))) = ''unknown''"
    by (simp add: size_info_by_tag extract_param_count_def)
next
  assume tag: "model_tag (thread_model thr) = Some tag"
    and occ: "tag = pre @ (n @ [l]) @ post" and n: "numeric n" and l: "is_b l"
    and left: "\<forall>pre' tok' post'. tag = pre' @ tok' @ post' \<longrightarrow> size_token tok' \<longrightarrow>
                            length pre \<le> length pre'"
  have tok: "size_token (n @ [l])" using n l by (auto simp: size_token_def)
  have "size_search tag = Some (n @ [l])"
    using occ tok left by (intro size_search_leftmost) blast+
  with tag have "size_info (format_model_name (thread_model thr)) = n @ [l]"
    by (simp add: size_info_by_tag)
  then show "extract_param_count (size_info (format_model_name (thread_model thr))) = n"
    using count_of_token [OF n l] by simp
next
  assume "thread_system_prompt thr \<noteq> []"
  then show "payload_system (build_payload thr) =
          (if replace ''%parameters%''
                (extract_param_count (size_info (format_model_name (thread_model thr))))
                (replace ''%model%'' (formatted_name (format_model_name (thread_model thr)))
                   (thread_system_prompt thr)) = []
           then None
           else Some (replace ''%parameters%''
                (extract_param_count (size_info (format_model_name (thread_model thr))))
                (replace ''%model%'' (formatted_name (format_model_name (thread_model thr)))
                   (thread_system_prompt thr))))"
    by (simp add: build_payload_def process_system_prompt_def Let_def)
next
  assume "pat \<noteq> []" "\<not> sublist pat str"
  then show "replace pat sub str = str" by (rule replace_none)
next
  assume "pat \<noteq> []" "\<not> sublist pat (front @ butlast pat)"
  then show "replace pat sub (front @ pat @ back) = front @ sub @ replace pat sub back"
    by (rule replace_first)
qed

lemma demo_thread_name:
  "formatted_name (format_model_name (thread_model demo_thread)) = ''Llama2''"
  unfolding demo_thread_def by code_simp

lemma demo_thread_ascii: "ascii (thread_model demo_thread)"
  unfolding demo_thread_def by code_simp

lemma demo_thread_tag: "model_tag (thread_model demo_thread) = Some ''13b''"
  unfolding demo_thread_def by code_simp

lemma demo_thread_plain_name: "plain (formatted_name (format_model_name (thread_model demo_thread)))"
  by (simp add: demo_thread_name plain_def)

lemma demo_template_ok: "plain_template demo_template" "separated (snd demo_template)"
  by (simp_all add: demo_template_def plain_template_def plain_def)

lemma demo_template_text: "thread_system_prompt demo_thread = template_text demo_template"
  by (simp add: demo_thread_def demo_template_def template_text_def placeholder_text_def)

lemma numeric_13: "numeric ''13''"
  by (simp add: numeric_def digits_def isdigit_def)

lemma is_b_b: "is_b (CHR ''b'')"
  by (simp add: is_b_def)

lemma mistral_tag: "ascii ''mistral''" "model_tag ''mistral'' = None"
  by code_simp+

lemma latest_tag:
  "ascii ''user/CodeLlama-7b-Instruct:latest''"
  "model_tag ''user/CodeLlama-7b-Instruct:latest'' = Some ''latest''"
  by code_simp+

lemma latest_search: "size_search ''latest'' = None"
  by code_simp

theorem C7_system_prompt_template_witness:
  "payload_system (build_payload demo_thread) =
      Some ''You are Llama2, an AI assistant with 13 billion parameters.''
   \<and> payload_system (build_payload (demo_thread \<lparr> thread_system_prompt := [] \<rparr>)) = None
   \<and> extract_param_count (size_info (format_model_name (thread_model demo_thread))) = ''13''
   \<and> extract_param_count
        (size_info (format_model_name (thread_model (demo_thread \<lparr> thread_model := ''mistral'' \<rparr>))))
       = ''unknown''
   \<and> extract_param_count
        (size_info (format_model_name
           (thread_model (demo_thread \<lparr> thread_model := ''user/CodeLlama-7b-Instruct:latest'' \<rparr>))))
       = ''unknown''"
proof -
  have occ: "''13b'' = [] @ (''13'' @ [CHR ''b'']) @ []" by simp
  have left: "\<forall>pre' tok' post'. ''13b'' = pre' @ tok' @ post' \<longrightarrow> size_token tok' \<longrightarrow>
                length ([] :: string) \<le> length pre'"
    by simp
  have cnt: "extract_param_count (size_info (format_model_name (thread_model demo_thread))) = ''13''"
    using C7_system_prompt_template
            [where thr = demo_thread and tag = "''13b''" and pre = "[]" and n = "''13''"
               and l = "CHR ''b''" and post = "[]",
             THEN conjunct2, THEN conjunct2, THEN conjunct2, THEN conjunct2]
          demo_thread_ascii demo_thread_tag occ numeric_13 is_b_b left
    by blast
  have "payload_system (build_payload demo_thread) =
          (if fill (formatted_name (format_model_name (thread_model demo_thread)))
                   (extract_param_count (size_info (format_model_name (thread_model demo_thread))))
                   demo_template = []
           then None
           else Some (fill (formatted_name (format_model_name (thread_model demo_thread)))
                           (extract_param_count (size_info (format_model_name (thread_model demo_thread))))
                           demo_template))"
    using C7_system_prompt_template
            [where thr = demo_thread and tpl = demo_template, THEN conjunct2, THEN conjunct1]
          demo_thread_ascii demo_template_ok demo_thread_plain_name demo_template_text
    by blast
  then have tpl: "payload_system (build_payload demo_thread) =
      Some ''You are Llama2, an AI assistant with 13 billion parameters.''"
    by (simp add: cnt demo_thread_name fill_def demo_template_def)
  have none: "payload_system (build_payload (demo_thread \<lparr> thread_system_prompt := [] \<rparr>)) = None"
    using C7_system_prompt_template
            [where thr = "demo_thread \<lparr> thread_system_prompt := [] \<rparr>", THEN conjunct1]
    by simp
  have unk: "extract_param_count
        (size_info (format_model_name (thread_model (demo_thread \<lparr> thread_model := ''mistral'' \<rparr>))))
       = ''unknown''"
    using C7_system_prompt_template
            [where thr = "demo_thread \<lparr> thread_model := ''mistral'' \<rparr>",
             THEN conjunct2, THEN conjunct2, THEN conjunct1]
          mistral_tag
    by simp
  have no_token: "\<forall>pre tok post. ''latest'' = pre @ tok @ post \<longrightarrow> \<not> size_token tok"
    using size_search_none [OF latest_search] by blast
  have unk2: "extract_param_count
        (size_info (format_model_name
           (thread_model (demo_thread \<lparr> thread_model := ''user/CodeLlama-7b-Instruct:latest'' \<rparr>))))
       = ''unknown''"
    using C7_system_prompt_template
            [where thr = "demo_thread \<lparr> thread_model := ''user/CodeLlama-7b-Instruct:latest'' \<rparr>"
               and tag = "''latest''",
             THEN conjunct2, THEN conjunct2, THEN conjunct2, THEN conjunct1]
          latest_tag no_token
    by simp
  from tpl none cnt unk unk2 show ?thesis by (intro conjI)
qed

section \<open>Streaming accumulation in the window\<close>

lemma first_chunk:
  "current_streaming_bubble s = None \<Longrightarrow>
   \<exists>s1. handle_streaming_chunk c s = Inr s1
        \<and> conversation_history s1 = conversation_history s @ [\<lparr> role = Assistant, content = c \<rparr>]
        \<and> current_streaming_bubble s1 \<noteq> None \<and> use_streaming s1 = use_streaming s"
  by (simp add: handle_streaming_chunk_def add_streaming_bubble_def Let_def)

lemma next_chunk:
  assumes "current_streaming_bubble s \<noteq> None" and "conversation_history s = h @ [m]"
  shows "\<exists>s1. handle_streaming_chunk c s = Inr s1
        \<and> conversation_history s1 = h @ [m \<lparr> content := content m @ c \<rparr>]
        \<and> current_streaming_bubble s1 \<noteq> None \<and> use_streaming s1 = use_streaming s"
  using assms
  by (auto simp: handle_streaming_chunk_def update_streaming_bubble_def Let_def
           split: option.splits)

lemma final_response:
  "use_streaming s \<Longrightarrow> current_streaming_bubble s \<noteq> None \<Longrightarrow>
   handle_response r s = s \<lparr> current_streaming_bubble := None \<rparr>"
  by (simp add: handle_response_def)

text \<open>
  C3: in streaming mode with no accumulation active (the state \<open>send_message\<close> leaves), the
  chunks "Hel", "lo", " world" followed by the final event open one assistant message on
  the first chunk, append the later chunks to that message, and on the final event leave
  the content as it is and clear the accumulation pointer: the history ends with one
  assistant message "Hello world" and has grown by exactly one.
\<close>

theorem C3_streaming_accumulation:
  assumes st: "use_streaming s" and nb: "current_streaming_bubble s = None"
  shows "\<exists>s1 s2 s3 s4.
      deliver (streaming_chunk_received ''Hel'') s = Inr s1
    \<and> conversation_history s1 = conversation_history s @ [\<lparr> role = Assistant, content = ''Hel'' \<rparr>]
    \<and> current_streaming_bubble s1 \<noteq> None
    \<and> deliver (streaming_chunk_received ''lo'') s1 = Inr s2
    \<and> conversation_history s2 = conversation_history s @ [\<lparr> role = Assistant, content = ''Hello'' \<rparr>]
    \<and> current_streaming_bubble s2 \<noteq> None
    \<and> deliver (streaming_chunk_received '' world'') s2 = Inr s3
    \<and> conversation_history s3
         = conversation_history s @ [\<lparr> role = Assistant, content = ''Hello world'' \<rparr>]
    \<and> current_streaming_bubble s3 \<noteq> None
    \<and> deliver (response_received ''Hello world'') s3 = Inr s4
    \<and> conversation_history s4 = conversation_history s3
    \<and> current_streaming_bubble s4 = None
    \<and> deliver_all [streaming_chunk_received ''Hel'', streaming_chunk_received ''lo'',
                    streaming_chunk_received '' world'', response_received ''Hello world''] s
         = Inr s4
    \<and> length (conversation_history s4) = length (conversation_history s) + 1"
proof -
  from first_chunk [OF nb, of "''Hel''"] obtain s1 where
    s1: "handle_streaming_chunk ''Hel'' s = Inr s1"
        "conversation_history s1 = conversation_history s @ [\<lparr> role = Assistant, content = ''Hel'' \<rparr>]"
        "current_streaming_bubble s1 \<noteq> None" "use_streaming s1 = use_streaming s"
    by blast
  from next_chunk [OF s1(3) s1(2), of "''lo''"] obtain s2 where
    s2: "handle_streaming_chunk ''lo'' s1 = Inr s2"
        "conversation_history s2 = conversation_history s @ [\<lparr> role = Assistant, content = ''Hello'' \<rparr>]"
        "current_streaming_bubble s2 \<noteq> None" "use_streaming s2 = use_streaming s1"
    by auto
  from next_chunk [OF s2(3) s2(2), of "'' world''"] obtain s3 where
    s3: "handle_streaming_chunk '' world'' s2 = Inr s3"
        "conversation_history s3 = conversation_history s @ [\<lparr> role = Assistant, content = ''Hello world'' \<rparr>]"
        "current_streaming_bubble s3 \<noteq> None" "use_streaming s3 = use_streaming s2"
    by auto
  have us3: "use_streaming s3" using st s1(4) s2(4) s3(4) by simp
  define s4 where "s4 = s3 \<lparr> current_streaming_bubble := None \<rparr>"
  have s4: "handle_response ''Hello world'' s3 = s4"
    unfolding s4_def using us3 s3(3) by (rule final_response)
  have h4: "conversation_history s4 = conversation_history s3" "current_streaming_bubble s4 = None"
    by (simp_all add: s4_def)
  have all: "deliver_all [streaming_chunk_received ''Hel'', streaming_chunk_received ''lo'',
                    streaming_chunk_received '' world'', response_received ''Hello world''] s
         = Inr s4"
    using s1(1) s2(1) s3(1) s4 by (simp add: deliver_def)
  have len: "length (conversation_history s4) = length (conversation_history s) + 1"
    using h4(1) s3(2) by simp
  show ?thesis
    using s1 s2 s3 s4 h4 all len by (auto simp: deliver_def)
qed

lemma demo_submit_streaming: "use_streaming (submit nobody ''hi'' demo_gui)"
  by code_simp

lemma demo_submit_bubble: "current_streaming_bubble (submit nobody ''hi'' demo_gui) = None"
  by code_simp

lemma demo_submit_history:
  "conversation_history (submit nobody ''hi'' demo_gui) = [\<lparr> role = User, content = ''hi'' \<rparr>]"
  by code_simp

theorem C3_streaming_accumulation_witness:
  "use_streaming (submit nobody ''hi'' demo_gui)
   \<and> current_streaming_bubble (submit nobody ''hi'' demo_gui) = None
   \<and> (\<exists>s4. deliver_all [streaming_chunk_received ''Hel'', streaming_chunk_received ''lo'',
                    streaming_chunk_received '' world'', response_received ''Hello world'']
              (submit nobody ''hi'' demo_gui) = Inr s4
          \<and> conversation_history s4 = [\<lparr> role = User, content = ''hi'' \<rparr>,
                                        \<lparr> role = Assistant, content = ''Hello world'' \<rparr>]
          \<and> current_streaming_bubble s4 = None)"
  using C3_streaming_accumulation [OF demo_submit_streaming demo_submit_bubble]
        demo_submit_streaming demo_submit_bubble demo_submit_history
  by auto

section \<open>The command interpreter\<close>










section \<open>The configuration file\<close>








section \<open>\<open>send_message\<close>\<close>

lemma split_acc_nonempty:
  "w \<noteq> [] \<or> (\<exists>c \<in> set s. \<not> isspace c) \<Longrightarrow> split_acc w s \<noteq> []"
  by (induction s arbitrary: w) auto

lemma slash_not_space: "\<not> isspace (CHR ''/'')"
  by (simp add: isspace_def)

lemma split_slash_nonempty: "startswith_slash msg \<Longrightarrow> \<exists>tok args. split msg = tok # args"
proof -
  assume "startswith_slash msg"
  then obtain cs where "msg = CHR ''/'' # cs"
    by (auto simp: startswith_slash_def split: list.splits)
  then have "\<exists>c \<in> set msg. \<not> isspace c" using slash_not_space by auto
  then have "split msg \<noteq> []" unfolding split_def by (simp add: split_acc_nonempty)
  then show ?thesis by (cases "split msg") auto
qed







lemma demo_gui_history: "conversation_history demo_gui = []"
  by (simp add: demo_gui_def show_model_dialog_def picks_llama_def init_gui_def load_config_def)




section \<open>The checks of \<open>send_message\<close>\<close>



















section \<open>Errors of a worker\<close>

text \<open>
  C4 (as stated): on an error event the window appends an error message to the
  conversation history and clears any active accumulation. It does neither in general:
  \<open>handle_error\<close> shows the error in a bubble and does not touch
  \<open>conversation_history\<close>, and it resets the accumulation pointer only when streaming is
  enabled at that moment. After a message, a first chunk, and the streaming box unchecked
  in the system-prompt dialog, an error leaves the history and the pointer as they were.
\<close>

theorem C4_error_counterexample:
  "history_after [Submit nobody ''hi'', FromWorker 1 (error_occurred ''Network error: down'')]
     demo_gui = Some [\<lparr> role = User, content = ''hi'' \<rparr>]
   \<and> history_after [Submit nobody ''hi'', FromWorker 1 (streaming_chunk_received ''He''),
                    Submit turns_streaming_off ''/system'',
                    FromWorker 1 (error_occurred ''Network error: down'')] demo_gui
       = Some [\<lparr> role = User, content = ''hi'' \<rparr>, \<lparr> role = Assistant, content = ''He'' \<rparr>]
   \<and> accumulating_after [Submit nobody ''hi'', FromWorker 1 (streaming_chunk_received ''He''),
                    Submit turns_streaming_off ''/system'',
                    FromWorker 1 (error_occurred ''Network error: down'')] demo_gui
       = Some True"
  by code_simp

text \<open>
  C4 (amended): on an error event the window shows a bubble with the text "Error: "
  followed by the message (after emptying the layout when the history is empty) and
  leaves the conversation history as it is; it clears the accumulation pointer when
  streaming is enabled, and leaves it as it is otherwise. The slot raises no exception.
\<close>

theorem C4_handle_error:
  "conversation_history (handle_error e s) = conversation_history s
   \<and> chat_layout (handle_error e s)
       = (if conversation_history s = [] then [] else chat_layout s)
         @ [ChatBubble (next_widget s) (''Error: '' @ e) False]
   \<and> (use_streaming s \<longrightarrow> current_streaming_bubble (handle_error e s) = None)
   \<and> (\<not> use_streaming s \<longrightarrow>
        current_streaming_bubble (handle_error e s) = current_streaming_bubble s)
   \<and> deliver (error_occurred e) s = Inr (handle_error e s)"
  by (simp add: handle_error_def add_message_bubble_def Let_def deliver_def)

lemma demo_gui_streaming: "use_streaming demo_gui"
  by (simp add: demo_gui_def show_model_dialog_def picks_llama_def init_gui_def load_config_def)

lemma demo_gui_off: "\<not> use_streaming (show_system_prompt_dialog turns_streaming_off demo_gui)"
  by (simp add: show_system_prompt_dialog_def turns_streaming_off_def save_prompt_def Let_def)

theorem C4_handle_error_witness:
  "use_streaming demo_gui
   \<and> current_streaming_bubble (handle_error ''down'' demo_gui) = None
   \<and> conversation_history (handle_error ''down'' demo_gui) = []
   \<and> \<not> use_streaming (show_system_prompt_dialog turns_streaming_off demo_gui)
   \<and> current_streaming_bubble
         (handle_error ''down'' (show_system_prompt_dialog turns_streaming_off demo_gui))
       = current_streaming_bubble (show_system_prompt_dialog turns_streaming_off demo_gui)"
proof -
  note on = C4_handle_error [where s = demo_gui and e = "''down''"]
  note off = C4_handle_error
               [where s = "show_system_prompt_dialog turns_streaming_off demo_gui"
                  and e = "''down''"]
  have a: "current_streaming_bubble (handle_error ''down'' demo_gui) = None"
    using on demo_gui_streaming by blast
  have b: "conversation_history (handle_error ''down'' demo_gui) = []"
    using on demo_gui_history by simp
  have c: "current_streaming_bubble
         (handle_error ''down'' (show_system_prompt_dialog turns_streaming_off demo_gui))
       = current_streaming_bubble (show_system_prompt_dialog turns_streaming_off demo_gui)"
    using off demo_gui_off by blast
  show ?thesis using a b c demo_gui_streaming demo_gui_off by blast
qed

section \<open>Late signals of a superseded worker\<close>










end
